theory Spec2Isabelle
  imports Main "HOL-Library.Char_ord"
begin

section \<open>Go standard-library functions the program calls\<close>

text \<open>
  The program is two Go files. Both lean on the standard library for strings, URLs,
  paths and regular expressions. Those library functions are not part of the
  repository; they are modelled here after the Go sources of \<^verbatim>\<open>strings\<close>,
  \<^verbatim>\<open>net/url\<close> (go1.21), \<^verbatim>\<open>path\<close>, \<^verbatim>\<open>path/filepath\<close> (Unix) and
  \<^verbatim>\<open>regexp\<close>, byte by byte: a Go string is a byte sequence, a \<open>string\<close> here is a
  list of \<open>char\<close>, one per byte.
\<close>

subsection \<open>Byte classes\<close>

definition is_digit :: "char \<Rightarrow> bool" where
  "is_digit c = (CHR ''0'' \<le> c \<and> c \<le> CHR ''9'')"

definition is_lower :: "char \<Rightarrow> bool" where
  "is_lower c = (CHR ''a'' \<le> c \<and> c \<le> CHR ''z'')"

definition is_upper :: "char \<Rightarrow> bool" where
  "is_upper c = (CHR ''A'' \<le> c \<and> c \<le> CHR ''Z'')"

definition is_alpha :: "char \<Rightarrow> bool" where
  "is_alpha c = (is_lower c \<or> is_upper c)"

text \<open>\<^verbatim>\<open>ishex\<close> and \<^verbatim>\<open>unhex\<close> of net/url.\<close>

definition ishex :: "char \<Rightarrow> bool" where
  "ishex c = (is_digit c \<or> (CHR ''a'' \<le> c \<and> c \<le> CHR ''f'') \<or> (CHR ''A'' \<le> c \<and> c \<le> CHR ''F''))"

definition unhex :: "char \<Rightarrow> nat" where
  "unhex c =
     (if is_digit c then of_char c - 48
      else if CHR ''a'' \<le> c \<and> c \<le> CHR ''f'' then of_char c - 97 + 10
      else if CHR ''A'' \<le> c \<and> c \<le> CHR ''F'' then of_char c - 65 + 10
      else 0)"

subsection \<open>Package strings\<close>

fun strings_HasPrefix :: "string \<Rightarrow> string \<Rightarrow> bool" where
  "strings_HasPrefix s [] = True"
| "strings_HasPrefix [] (p # ps) = False"
| "strings_HasPrefix (c # cs) (p # ps) = (c = p \<and> strings_HasPrefix cs ps)"

definition strings_HasSuffix :: "string \<Rightarrow> string \<Rightarrow> bool" where
  "strings_HasSuffix s suf = strings_HasPrefix (rev s) (rev suf)"

text \<open>\<^verbatim>\<open>strings.Index\<close>: position of the first occurrence, \<open>None\<close> for Go's \<open>-1\<close>.\<close>

fun strings_Index :: "string \<Rightarrow> string \<Rightarrow> nat option" where
  "strings_Index [] sub = (if sub = [] then Some 0 else None)"
| "strings_Index (c # cs) sub =
     (if strings_HasPrefix (c # cs) sub then Some 0
      else map_option Suc (strings_Index cs sub))"

text \<open>\<^verbatim>\<open>strings.LastIndex\<close>: position of the last occurrence.\<close>

fun strings_LastIndex :: "string \<Rightarrow> string \<Rightarrow> nat option" where
  "strings_LastIndex [] sub = (if sub = [] then Some 0 else None)"
| "strings_LastIndex (c # cs) sub =
     (case strings_LastIndex cs sub of
        Some i \<Rightarrow> Some (Suc i)
      | None \<Rightarrow> if strings_HasPrefix (c # cs) sub then Some 0 else None)"

definition strings_Contains :: "string \<Rightarrow> string \<Rightarrow> bool" where
  "strings_Contains s sub = (strings_Index s sub \<noteq> None)"

text \<open>
  \<^verbatim>\<open>strings.Cut(s, sep)\<close> for a one-byte separator: the text before the first
  separator and the text after it (empty when there is none).
\<close>

definition strings_Cut :: "string \<Rightarrow> char \<Rightarrow> string \<times> string" where
  "strings_Cut s sep =
     (takeWhile (\<lambda>c. c \<noteq> sep) s, drop 1 (dropWhile (\<lambda>c. c \<noteq> sep) s))"

text \<open>
  \<^verbatim>\<open>strings.ToLower\<close> on the ASCII letters. The program only asks whether the
  lowered name ends in \<^verbatim>\<open>.pdf\<close>, and no rune outside ASCII lowers to one of
  these four bytes, so the bytes that decide the test are the ASCII ones.
\<close>

definition strings_ToLower :: "string \<Rightarrow> string" where
  "strings_ToLower s = map (\<lambda>c. if is_upper c then char_of (of_char c + (32::nat)) else c) s"

subsection \<open>Package net/url\<close>

text \<open>
  The fields of \<^verbatim>\<open>url.URL\<close> that \<^verbatim>\<open>url.Parse\<close> fills from the text. The user
  information is validated as Go does but not stored; the program reads \<open>Host\<close>
  and \<open>Path\<close> only.
\<close>

record URL =
  Scheme :: string
  Opaque :: string
  Host :: string
  Path :: string
  RawQuery :: string
  Fragment :: string

definition empty_URL :: URL where
  "empty_URL = \<lparr>Scheme = [], Opaque = [], Host = [], Path = [], RawQuery = [], Fragment = []\<rparr>"

datatype encoding = encodePath | encodeHost | encodeZone | encodeUserPassword | encodeFragment

definition stringContainsCTLByte :: "string \<Rightarrow> bool" where
  "stringContainsCTLByte s = (\<exists>c \<in> set s. c < CHR '' '' \<or> c = CHR 0x7F)"

text \<open>
  \<^verbatim>\<open>shouldEscape\<close>, for the one way \<^verbatim>\<open>unescape\<close> calls it: with mode
  \<^verbatim>\<open>encodeHost\<close>, to reject a byte that may not stand in a host.
\<close>

definition shouldEscape_host :: "char \<Rightarrow> bool" where
  "shouldEscape_host c =
     (\<not> (is_alpha c \<or> is_digit c
         \<or> c \<in> set ''!$&()*+,;=:[]<>'' \<or> c = CHR 0x27 \<or> c = CHR 0x22
         \<or> c \<in> set ''-_.~''))"

text \<open>
  \<^verbatim>\<open>unescape(s, mode)\<close>: \<open>None\<close> is Go's error (a malformed \<^verbatim>\<open>%\<close> escape, an escape
  the host may not use, or a byte the host may not hold).
\<close>

fun unescape :: "encoding \<Rightarrow> string \<Rightarrow> string option" where
  "unescape mode [] = Some []"
| "unescape mode (c # cs) =
     (if c = CHR ''%'' then
        (case cs of
           a # b # rest \<Rightarrow>
             if \<not> ishex a \<or> \<not> ishex b then None
             else if mode = encodeHost \<and> unhex a < 8 \<and> [a, b] \<noteq> ''25'' then None
             else if mode = encodeZone \<and> [a, b] \<noteq> ''25''
                     \<and> char_of (unhex a * 16 + unhex b) \<noteq> CHR '' ''
                     \<and> shouldEscape_host (char_of (unhex a * 16 + unhex b)) then None
             else map_option (\<lambda>r. char_of (unhex a * 16 + unhex b) # r) (unescape mode rest)
         | _ \<Rightarrow> None)
      else if (mode = encodeHost \<or> mode = encodeZone) \<and> c < CHR 0x80 \<and> shouldEscape_host c
        then None
      else map_option (\<lambda>r. c # r) (unescape mode cs))"

text \<open>
  \<^verbatim>\<open>getScheme\<close>: \<open>acc\<close> is \<^verbatim>\<open>rawURL[:i]\<close>, so \<open>acc = []\<close> is \<^verbatim>\<open>i == 0\<close>.
  \<open>None\<close> is the error "missing protocol scheme".
\<close>

fun getScheme_from :: "string \<Rightarrow> string \<Rightarrow> string \<Rightarrow> (string \<times> string) option" where
  "getScheme_from rawURL acc [] = Some ([], rawURL)"
| "getScheme_from rawURL acc (c # cs) =
     (if is_alpha c then getScheme_from rawURL (acc @ [c]) cs
      else if is_digit c \<or> c = CHR ''+'' \<or> c = CHR ''-'' \<or> c = CHR ''.'' then
        (if acc = [] then Some ([], rawURL) else getScheme_from rawURL (acc @ [c]) cs)
      else if c = CHR '':'' then
        (if acc = [] then None else Some (acc, cs))
      else Some ([], rawURL))"

definition getScheme :: "string \<Rightarrow> (string \<times> string) option" where
  "getScheme rawURL = getScheme_from rawURL [] rawURL"

definition validOptionalPort :: "string \<Rightarrow> bool" where
  "validOptionalPort port =
     (case port of
        [] \<Rightarrow> True
      | c # ds \<Rightarrow> c = CHR '':'' \<and> (\<forall>b \<in> set ds. is_digit b))"

definition validUserinfo :: "string \<Rightarrow> bool" where
  "validUserinfo s =
     (\<forall>r \<in> set s. is_alpha r \<or> is_digit r \<or> r \<in> set ''-._:~!$&()*+,;=%@'' \<or> r = CHR 0x27)"

definition parseHost :: "string \<Rightarrow> string option" where
  "parseHost host =
     (if strings_HasPrefix host ''['' then
        (case strings_LastIndex host '']'' of
           None \<Rightarrow> None
         | Some i \<Rightarrow>
             if \<not> validOptionalPort (drop (i + 1) host) then None
             else
               (case strings_Index (take i host) ''%25'' of
                  Some zone \<Rightarrow>
                    (case unescape encodeHost (take zone host) of
                       None \<Rightarrow> None
                     | Some host1 \<Rightarrow>
                         (case unescape encodeZone (drop zone (take i host)) of
                            None \<Rightarrow> None
                          | Some host2 \<Rightarrow>
                              (case unescape encodeHost (drop i host) of
                                 None \<Rightarrow> None
                               | Some host3 \<Rightarrow> Some (host1 @ host2 @ host3))))
                | None \<Rightarrow> unescape encodeHost host))
      else
        (case strings_LastIndex host '':'' of
           Some i \<Rightarrow>
             if \<not> validOptionalPort (drop i host) then None else unescape encodeHost host
         | None \<Rightarrow> unescape encodeHost host))"

text \<open>
  \<^verbatim>\<open>parseAuthority\<close>, returning the host: the text after the last \<^verbatim>\<open>@\<close> is the
  host, the text before it the user information, which must be valid and whose
  name and password must unescape.
\<close>

definition parseAuthority :: "string \<Rightarrow> string option" where
  "parseAuthority authority =
     (case strings_LastIndex authority ''@'' of
        None \<Rightarrow> parseHost authority
      | Some i \<Rightarrow>
          (case parseHost (drop (i + 1) authority) of
             None \<Rightarrow> None
           | Some host \<Rightarrow>
               let userinfo = take i authority in
               if \<not> validUserinfo userinfo then None
               else if \<not> strings_Contains userinfo '':'' then
                 (case unescape encodeUserPassword userinfo of
                    None \<Rightarrow> None | Some _ \<Rightarrow> Some host)
               else
                 (case unescape encodeUserPassword (fst (strings_Cut userinfo CHR '':'')) of
                    None \<Rightarrow> None
                  | Some _ \<Rightarrow>
                      (case unescape encodeUserPassword (snd (strings_Cut userinfo CHR '':'')) of
                         None \<Rightarrow> None | Some _ \<Rightarrow> Some host))))"

text \<open>
  \<^verbatim>\<open>parse(rawURL, viaRequest = false)\<close>. Whether the query was cut at a lone
  trailing \<^verbatim>\<open>?\<close> (\<^verbatim>\<open>ForceQuery\<close>) or by \<^verbatim>\<open>strings.Cut\<close>, the rest is the text
  before the first \<^verbatim>\<open>?\<close> and the query the text after it.
\<close>

definition parse :: "string \<Rightarrow> URL option" where
  "parse rawURL =
     (if stringContainsCTLByte rawURL then None
      else if rawURL = ''*'' then Some (empty_URL\<lparr>Path := ''*''\<rparr>)
      else
        (case getScheme rawURL of
           None \<Rightarrow> None
         | Some (scheme0, rest0) \<Rightarrow>
             let scheme = strings_ToLower scheme0;
                 rest = fst (strings_Cut rest0 CHR ''?'');
                 rawQuery = snd (strings_Cut rest0 CHR ''?'');
                 url = empty_URL\<lparr>Scheme := scheme, RawQuery := rawQuery\<rparr>
             in
               if \<not> strings_HasPrefix rest ''/'' \<and> scheme \<noteq> [] then Some (url\<lparr>Opaque := rest\<rparr>)
               else if \<not> strings_HasPrefix rest ''/''
                       \<and> strings_Contains (fst (strings_Cut rest CHR ''/'')) '':'' then None
               else if (scheme \<noteq> [] \<or> \<not> strings_HasPrefix rest ''///'')
                       \<and> strings_HasPrefix rest ''//'' then
                 (let authority = takeWhile (\<lambda>c. c \<noteq> CHR ''/'') (drop 2 rest);
                      rest' = dropWhile (\<lambda>c. c \<noteq> CHR ''/'') (drop 2 rest)
                  in case parseAuthority authority of
                       None \<Rightarrow> None
                     | Some host \<Rightarrow>
                         (case unescape encodePath rest' of
                            None \<Rightarrow> None
                          | Some p \<Rightarrow> Some (url\<lparr>Host := host, Path := p\<rparr>)))
               else
                 (case unescape encodePath rest of
                    None \<Rightarrow> None
                  | Some p \<Rightarrow> Some (url\<lparr>Path := p\<rparr>))))"

text \<open>
  \<^verbatim>\<open>url.Parse\<close>: cut the fragment at the first \<^verbatim>\<open>#\<close>, parse the rest, then
  unescape the fragment. \<open>None\<close> is a non-nil error.
\<close>

definition url_Parse :: "string \<Rightarrow> URL option" where
  "url_Parse rawURL =
     (let u = fst (strings_Cut rawURL CHR ''#'');
          frag = snd (strings_Cut rawURL CHR ''#'')
      in case parse u of
           None \<Rightarrow> None
         | Some url \<Rightarrow>
             if frag = [] then Some url
             else (case unescape encodeFragment frag of
                     None \<Rightarrow> None
                   | Some f \<Rightarrow> Some (url\<lparr>Fragment := f\<rparr>)))"

subsection \<open>Package path\<close>

text \<open>
  \<^verbatim>\<open>path.Base\<close>: the last element of a slash-separated path, after the trailing
  slashes are dropped; \<^verbatim>\<open>.\<close> for the empty path, \<^verbatim>\<open>/\<close> for a path of slashes only.
\<close>

definition path_Base :: "string \<Rightarrow> string" where
  "path_Base p =
     (if p = [] then ''.''
      else
        let stripped = rev (dropWhile (\<lambda>c. c = CHR ''/'') (rev p));
            lastElem = rev (takeWhile (\<lambda>c. c \<noteq> CHR ''/'') (rev stripped))
        in if lastElem = [] then ''/'' else lastElem)"

subsection \<open>Package regexp: the one pattern the program compiles\<close>

text \<open>
  Both files search the input with \<^verbatim>\<open>FindStringSubmatch\<close> for
  \<^verbatim>\<open>documentcloud\.org/documents/(\d+)-(C+)\<close>, where the class \<^verbatim>\<open>C\<close> is written
  \<^verbatim>\<open>[a-zA-Z0-9_\-]\<close> in the batch program and \<^verbatim>\<open>[\w\-]\<close> in the companion
  script. Go's \<^verbatim>\<open>\d\<close> and \<^verbatim>\<open>\w\<close> are ASCII-only. The search returns the leftmost
  match; \<^verbatim>\<open>+\<close> is greedy. Since the byte after \<^verbatim>\<open>\d+\<close> must be a hyphen, which is
  no digit, and nothing follows the second group, the greedy choice is the only one
  that can succeed at a given start, so no backtracking within a start is needed.
  The result is \<open>[]\<close> for Go's nil slice, else the whole match and the two groups.
\<close>

definition slug_class_batch :: "char \<Rightarrow> bool" where
  "slug_class_batch c = (is_lower c \<or> is_upper c \<or> is_digit c \<or> c = CHR ''_'' \<or> c = CHR ''-'')"

definition word_class :: "char \<Rightarrow> bool" where
  "word_class c = (is_digit c \<or> is_upper c \<or> c = CHR ''_'' \<or> is_lower c)"

definition slug_class_script :: "char \<Rightarrow> bool" where
  "slug_class_script c = (word_class c \<or> c = CHR ''-'')"

definition re_literal :: string where
  "re_literal = ''documentcloud.org/documents/''"

definition match_here :: "(char \<Rightarrow> bool) \<Rightarrow> string \<Rightarrow> string list" where
  "match_here cls s =
     (if \<not> strings_HasPrefix s re_literal then []
      else
        let r = drop (length re_literal) s;
            docID = takeWhile is_digit r;
            r' = dropWhile is_digit r
        in if docID = [] then []
           else (case r' of
                   [] \<Rightarrow> []
                 | h # r'' \<Rightarrow>
                     if h \<noteq> CHR ''-'' then []
                     else
                       let slug = takeWhile cls r''
                       in if slug = [] then []
                          else [re_literal @ docID @ ''-'' @ slug, docID, slug]))"

fun FindStringSubmatch :: "(char \<Rightarrow> bool) \<Rightarrow> string \<Rightarrow> string list" where
  "FindStringSubmatch cls [] = match_here cls []"
| "FindStringSubmatch cls (c # cs) =
     (if match_here cls (c # cs) \<noteq> [] then match_here cls (c # cs)
      else FindStringSubmatch cls cs)"

section \<open>The Pattern Resolver\<close>

text \<open>
  \<^verbatim>\<open>extractFinalDocumentCloudURL\<close> of the batch program. The indexing
  \<^verbatim>\<open>matches[1]\<close>, \<^verbatim>\<open>matches[2]\<close> is reached only when the slice has three entries.
\<close>

definition s3_marker :: string where
  "s3_marker = ''s3.documentcloud.org''"

definition format_finalURL :: "string \<Rightarrow> string \<Rightarrow> string" where
  "format_finalURL docID slug =
     ''https://s3.documentcloud.org/documents/'' @ docID @ ''/'' @ slug @ ''.pdf''"

definition extractFinalDocumentCloudURL :: "string \<Rightarrow> string" where
  "extractFinalDocumentCloudURL input =
     (case url_Parse input of
        None \<Rightarrow> []
      | Some parsedURL \<Rightarrow>
          if strings_Contains (Host parsedURL) s3_marker then input
          else
            let matches = FindStringSubmatch slug_class_batch input
            in if length matches \<noteq> 3 then []
               else format_finalURL (matches ! 1) (matches ! 2))"

text \<open>\<^verbatim>\<open>ExtractFinalDocumentCloudURL\<close> of the companion script.\<close>

definition ExtractFinalDocumentCloudURL :: "string \<Rightarrow> string" where
  "ExtractFinalDocumentCloudURL input =
     (case url_Parse input of
        None \<Rightarrow> []
      | Some parsedURL \<Rightarrow>
          if strings_Contains (Host parsedURL) s3_marker then input
          else
            let matches = FindStringSubmatch slug_class_script input
            in if length matches \<noteq> 3 then []
               else format_finalURL (matches ! 1) (matches ! 2))"

subsection \<open>Package path/filepath (Unix)\<close>

text \<open>\<^verbatim>\<open>strings.Split(s, "/")\<close> and \<^verbatim>\<open>strings.Join(elems, "/")\<close>.\<close>

fun split_slash :: "string \<Rightarrow> string list" where
  "split_slash [] = [[]]"
| "split_slash (c # cs) =
     (if c = CHR ''/'' then [] # split_slash cs
      else (case split_slash cs of
              [] \<Rightarrow> [[c]]
            | x # xs \<Rightarrow> (c # x) # xs))"

fun join_slash :: "string list \<Rightarrow> string" where
  "join_slash [] = []"
| "join_slash [x] = x"
| "join_slash (x # y # ys) = x @ ''/'' @ join_slash (y # ys)"

text \<open>
  \<^verbatim>\<open>filepath.Clean\<close> works through the path element by element. \<open>out\<close> is the
  output written so far, last element first. An empty element and \<^verbatim>\<open>.\<close> are
  dropped; \<^verbatim>\<open>..\<close> removes the last real element when there is one, is kept
  when the path is not rooted, and is dropped at the root.
\<close>

fun clean_elems :: "bool \<Rightarrow> string list \<Rightarrow> string list \<Rightarrow> string list" where
  "clean_elems rooted out [] = rev out"
| "clean_elems rooted out (e # es) =
     (if e = [] \<or> e = ''.'' then clean_elems rooted out es
      else if e = ''..'' then
        (if out \<noteq> [] \<and> hd out \<noteq> ''..'' then clean_elems rooted (tl out) es
         else if \<not> rooted then clean_elems rooted (e # out) es
         else clean_elems rooted out es)
      else clean_elems rooted (e # out) es)"

definition filepath_Clean :: "string \<Rightarrow> string" where
  "filepath_Clean p =
     (if p = [] then ''.''
      else
        let rooted = (hd p = CHR ''/'');
            out = (if rooted then ''/'' else []) @ join_slash (clean_elems rooted [] (split_slash p))
        in if out = [] then ''.'' else out)"

text \<open>
  \<^verbatim>\<open>filepath.Join\<close> of two elements: the empty leading elements are skipped, the
  rest is joined with a slash and cleaned; all empty gives the empty string.
\<close>

definition filepath_Join :: "string \<Rightarrow> string \<Rightarrow> string" where
  "filepath_Join dir name =
     (if dir \<noteq> [] then filepath_Clean (dir @ ''/'' @ name)
      else if name \<noteq> [] then filepath_Clean name
      else [])"

section \<open>The world outside the program\<close>

text \<open>
  The file system maps a cleaned path to what it holds: a regular file with its
  bytes, or a directory. The world also records what the program wrote to the
  logger and to standard output, the URLs it passed to \<^verbatim>\<open>http.Get\<close> and the paths
  at which \<^verbatim>\<open>os.Create\<close> succeeded, each in order.
\<close>

datatype node = File string | Dir

type_synonym filesystem = "string \<Rightarrow> node option"

text \<open>One constructor for each \<^verbatim>\<open>log.Printf\<close> message of the two files; the
  text of an error value is left out.\<close>

datatype log_line =
    Invalid_URL string
  | No_file_name string
  | Mkdir_failed string
  | Exists_skipping string
  | Get_failed string
  | Bad_status string nat
  | Create_failed string
  | Copy_failed string
  | Downloaded_to string
  | Cap_reached nat
  | Unrecognized_URL string
  | Skipping_final string
  | Exists_not_counted string
  | Original_URL URL
  | Final_URL string
  | Unparsable_final string

datatype out_line = Error_opening_file | Error_reading_file | Input_line string | Final_S3_line string

record world =
  fs :: filesystem
  log :: "log_line list"
  stdout :: "out_line list"
  requests :: "string list"
  created :: "string list"

text \<open>
  What the outside answers. \<open>http_Get n url\<close> is the outcome of the request for
  \<open>url\<close> issued after \<open>n\<close> earlier ones (\<^verbatim>\<open>http.Get\<close> follows redirects, so the
  status is that of the last response and \<open>final_url\<close> is
  \<^verbatim>\<open>resp.Request.URL.String()\<close>); \<open>copy_error = Some k\<close> says that \<^verbatim>\<open>io.Copy\<close> fails
  after \<open>k\<close> bytes. \<open>mkdir_denied d\<close> says that the system refuses to make the
  directory \<open>d\<close>, \<open>create_denied p\<close> that it refuses to create or truncate the file
  \<open>p\<close>. \<open>os_Open\<close> gives, for the input file, either the failure to open it or the
  tokens that \<^verbatim>\<open>scanner.Scan\<close> yields before it stops and whether
  \<^verbatim>\<open>scanner.Err()\<close> is then non-nil.
\<close>

record response =
  status :: nat
  final_url :: string
  body :: string
  copy_error :: "nat option"

datatype get_result = GetError | GetResponse response

datatype open_result = OpenError | Opened "string list" bool

record env =
  http_Get :: "nat \<Rightarrow> string \<Rightarrow> get_result"
  mkdir_denied :: "string \<Rightarrow> bool"
  create_denied :: "string \<Rightarrow> bool"
  os_Open :: "string \<Rightarrow> open_result"

text \<open>
  \<^verbatim>\<open>os.Stat\<close>: the empty path does not exist; any other path is looked up cleaned.
\<close>

definition os_Stat :: "filesystem \<Rightarrow> string \<Rightarrow> node option" where
  "os_Stat f p = (if p = [] then None else f (filepath_Clean p))"

text \<open>The directories above a cleaned path, outermost first.\<close>

definition path_parents :: "string \<Rightarrow> string list" where
  "path_parents c =
     (let elems = filter (\<lambda>e. e \<noteq> []) (split_slash c)
      in map (\<lambda>n. (if strings_HasPrefix c ''/'' then ''/'' else []) @ join_slash (take n elems))
           [1..<length elems])"

definition is_file :: "node option \<Rightarrow> bool" where
  "is_file n = (case n of Some (File _) \<Rightarrow> True | _ \<Rightarrow> False)"

text \<open>
  \<^verbatim>\<open>os.MkdirAll\<close>: nothing to do when the path is a directory already, an error
  when it is a regular file. Else the directories above the path and the path
  itself are visited outermost first: one that exists is passed, a regular file
  in the way or a refusal of the system stops with an error, and a missing one
  is made. The result is the file system afterwards and whether the call
  succeeded; what a failed call made before it stopped stays.
\<close>

fun mkdir_each :: "env \<Rightarrow> string list \<Rightarrow> filesystem \<Rightarrow> filesystem \<times> bool" where
  "mkdir_each e [] f = (f, True)"
| "mkdir_each e (d # ds) f =
     (if f d = Some Dir then mkdir_each e ds f
      else if is_file (f d) \<or> mkdir_denied e d then (f, False)
      else mkdir_each e ds (f(d \<mapsto> Dir)))"

definition os_MkdirAll :: "env \<Rightarrow> filesystem \<Rightarrow> string \<Rightarrow> filesystem \<times> bool" where
  "os_MkdirAll e f p =
     (if os_Stat f p = Some Dir then (f, True)
      else if is_file (os_Stat f p) \<or> p = [] then (f, False)
      else mkdir_each e (path_parents (filepath_Clean p) @ [filepath_Clean p]) f)"

text \<open>
  \<^verbatim>\<open>os.Create\<close>: an error on a directory, when a directory above the path is
  missing, or when the system refuses; else the file exists afterwards and is
  empty.
\<close>

definition os_Create :: "env \<Rightarrow> filesystem \<Rightarrow> string \<Rightarrow> filesystem option" where
  "os_Create e f p =
     (if p = [] \<or> create_denied e p \<or> os_Stat f p = Some Dir
         \<or> (\<exists>a \<in> set (path_parents (filepath_Clean p)). f a \<noteq> Some Dir)
      then None
      else Some (f(filepath_Clean p \<mapsto> File [])))"

definition write_file :: "filesystem \<Rightarrow> string \<Rightarrow> string \<Rightarrow> filesystem" where
  "write_file f p bytes = f(filepath_Clean p \<mapsto> File bytes)"

definition logf :: "world \<Rightarrow> log_line \<Rightarrow> world" where
  "logf w m = w\<lparr>log := log w @ [m]\<rparr>"

definition println :: "world \<Rightarrow> out_line \<Rightarrow> world" where
  "println w m = w\<lparr>stdout := stdout w @ [m]\<rparr>"

section \<open>The batch program\<close>

text \<open>\<^verbatim>\<open>fileExists\<close>: the path can be stat'ed and is not a directory.\<close>

definition fileExists :: "world \<Rightarrow> string \<Rightarrow> bool" where
  "fileExists w filename =
     (case os_Stat (fs w) filename of
        None \<Rightarrow> False
      | Some info \<Rightarrow> info \<noteq> Dir)"

text \<open>The file name the Fetcher derives: \<^verbatim>\<open>.pdf\<close> is appended unless the lowered
  name ends in it.\<close>

definition ensure_pdf :: "string \<Rightarrow> string" where
  "ensure_pdf fileName =
     (if \<not> strings_HasSuffix (strings_ToLower fileName) ''.pdf'' then fileName @ ''.pdf''
      else fileName)"

text \<open>\<^verbatim>\<open>downloadPDF\<close> of the batch program. Every \<^verbatim>\<open>return\<close> is a branch.\<close>

definition downloadPDF :: "env \<Rightarrow> string \<Rightarrow> string \<Rightarrow> world \<Rightarrow> world" where
  "downloadPDF e finalURL outputDir w =
     (case url_Parse finalURL of
        None \<Rightarrow> logf w (Invalid_URL finalURL)
      | Some parsedURL \<Rightarrow>
          if path_Base (Path parsedURL) = [] \<or> path_Base (Path parsedURL) = ''/''
          then logf w (No_file_name finalURL)
          else
            (let made = os_MkdirAll e (fs w) outputDir;
                 w1 = w\<lparr>fs := fst made\<rparr>;
                 filePath = filepath_Join outputDir (ensure_pdf (path_Base (Path parsedURL)))
             in
               if \<not> snd made then logf w1 (Mkdir_failed outputDir)
               else if fileExists w1 filePath then logf w1 (Exists_skipping filePath)
               else
                 let w2 = w1\<lparr>requests := requests w1 @ [finalURL]\<rparr> in
                 (case http_Get e (length (requests w1)) finalURL of
                    GetError \<Rightarrow> logf w2 (Get_failed finalURL)
                  | GetResponse resp \<Rightarrow>
                      if status resp \<noteq> 200 then logf w2 (Bad_status finalURL (status resp))
                      else
                        (case os_Create e (fs w2) filePath of
                           None \<Rightarrow> logf w2 (Create_failed filePath)
                         | Some f3 \<Rightarrow>
                             let w3 = w2\<lparr>fs := f3, created := created w2 @ [filePath]\<rparr> in
                             (case copy_error resp of
                                Some k \<Rightarrow>
                                  logf (w3\<lparr>fs := write_file f3 filePath (take k (body resp))\<rparr>)
                                    (Copy_failed filePath)
                              | None \<Rightarrow>
                                  logf (w3\<lparr>fs := write_file f3 filePath (body resp)\<rparr>)
                                    (Downloaded_to filePath))))))"

text \<open>
  \<^verbatim>\<open>readFileLines\<close>: the loop appends each token to \<open>lines\<close>; an error of either
  kind returns the nil slice, here the empty list.
\<close>

fun scan_loop :: "string list \<Rightarrow> string list \<Rightarrow> string list" where
  "scan_loop [] lines = lines"
| "scan_loop (t # ts) lines = scan_loop ts (lines @ [t])"

definition readFileLines :: "env \<Rightarrow> string \<Rightarrow> world \<Rightarrow> string list \<times> world" where
  "readFileLines e filename w =
     (case os_Open e filename of
        OpenError \<Rightarrow> ([], println w Error_opening_file)
      | Opened tokens scan_err \<Rightarrow>
          let lines = scan_loop tokens []
          in if scan_err then ([], println w Error_reading_file) else (lines, w))"

text \<open>
  One pass through the body of the loop of \<^verbatim>\<open>main\<close>, after the test of the cap.
  \<^verbatim>\<open>urlParseSafe\<close> is \<^verbatim>\<open>url.Parse\<close>. The counter is a Go \<^verbatim>\<open>int\<close> that only
  counts up from zero and stops at the cap, so a natural number holds it.
\<close>

definition loop_body :: "env \<Rightarrow> string \<Rightarrow> string \<Rightarrow> world \<times> nat \<Rightarrow> world \<times> nat" where
  "loop_body e pdfDir url st =
     (let w = fst st; downloadCount = snd st;
          finalURL = extractFinalDocumentCloudURL url
      in
        if finalURL = [] then (logf w (Unrecognized_URL url), downloadCount)
        else
          (case url_Parse finalURL of
             None \<Rightarrow> (logf w (Skipping_final finalURL), downloadCount)
           | Some parsedURL \<Rightarrow>
               let fileName = path_Base (Path parsedURL) in
               if fileName = [] then (w, downloadCount)
               else
                 let filePath = filepath_Join pdfDir fileName in
                 if \<not> fileExists w filePath
                 then (downloadPDF e finalURL pdfDir w, downloadCount + 1)
                 else (logf w (Exists_not_counted filePath), downloadCount)))"

fun batch_loop :: "env \<Rightarrow> nat \<Rightarrow> string \<Rightarrow> string list \<Rightarrow> world \<times> nat \<Rightarrow> world \<times> nat" where
  "batch_loop e maxDownloads pdfDir [] st = st"
| "batch_loop e maxDownloads pdfDir (url # urls) st =
     (if snd st \<ge> maxDownloads then (logf (fst st) (Cap_reached maxDownloads), snd st)
      else batch_loop e maxDownloads pdfDir urls (loop_body e pdfDir url st))"

definition main :: "env \<Rightarrow> world \<Rightarrow> world \<times> nat" where
  "main e w =
     (let urls = fst (readFileLines e ''extracted_urls.txt'' w);
          w1 = snd (readFileLines e ''extracted_urls.txt'' w)
      in batch_loop e 1000 ''./NYPD_PDF/'' urls (w1, 0))"

section \<open>The companion script\<close>

text \<open>
  Its \<^verbatim>\<open>downloadPDF\<close> issues the request first, takes the file name from the URL
  the redirects ended at, and creates the file without looking whether it exists.
\<close>

definition downloadPDF_redirect :: "env \<Rightarrow> string \<Rightarrow> string \<Rightarrow> world \<Rightarrow> world" where
  "downloadPDF_redirect e rawURL outputDir w =
     (case url_Parse rawURL of
        None \<Rightarrow> logf w (Invalid_URL rawURL)
      | Some parsedURL \<Rightarrow>
          let w1 = w\<lparr>requests := requests w @ [rawURL]\<rparr> in
          (case http_Get e (length (requests w)) rawURL of
             GetError \<Rightarrow> logf w1 (Get_failed rawURL)
           | GetResponse resp \<Rightarrow>
               if status resp \<noteq> 200 then logf w1 (Bad_status rawURL (status resp))
               else
                 let finalURL = final_url resp;
                     w2 = logf (logf w1 (Original_URL parsedURL)) (Final_URL finalURL)
                 in
                 (case url_Parse finalURL of
                    None \<Rightarrow> logf w2 (Unparsable_final finalURL)
                  | Some finalParsed \<Rightarrow>
                      if path_Base (Path finalParsed) = [] \<or> path_Base (Path finalParsed) = ''/''
                      then logf w2 (No_file_name finalURL)
                      else
                        (let made = os_MkdirAll e (fs w2) outputDir;
                             f1 = fst made;
                             filePath =
                               filepath_Join outputDir (ensure_pdf (path_Base (Path finalParsed)))
                         in
                           if \<not> snd made then logf (w2\<lparr>fs := f1\<rparr>) (Mkdir_failed outputDir)
                           else
                             (case os_Create e f1 filePath of
                                None \<Rightarrow> logf (w2\<lparr>fs := f1\<rparr>) (Create_failed filePath)
                              | Some f3 \<Rightarrow>
                                  let w3 = w2\<lparr>fs := f3, created := created w2 @ [filePath]\<rparr> in
                                  (case copy_error resp of
                                     Some k \<Rightarrow>
                                       logf (w3\<lparr>fs := write_file f3 filePath (take k (body resp))\<rparr>)
                                         (Copy_failed filePath)
                                   | None \<Rightarrow>
                                       logf (w3\<lparr>fs := write_file f3 filePath (body resp)\<rparr>)
                                         (Downloaded_to filePath)))))))"

fun script_loop :: "env \<Rightarrow> string \<Rightarrow> string list \<Rightarrow> world \<Rightarrow> world" where
  "script_loop e pdfDir [] w = w"
| "script_loop e pdfDir (url # urls) w =
     (let finalURL = ExtractFinalDocumentCloudURL url;
          w1 = println (println w (Input_line url)) (Final_S3_line finalURL)
      in script_loop e pdfDir urls (downloadPDF_redirect e finalURL pdfDir w1))"

definition main_script :: "env \<Rightarrow> world \<Rightarrow> world" where
  "main_script e w =
     script_loop e ''nypd_pdf/''
       [''https://www.documentcloud.org/documents/23461534-200301254_redactedclosingreport_redacted'']
       w"

section \<open>Notions used to state the properties\<close>

text \<open>
  The pattern stands at the start of \<open>s\<close>: the literal text, one or more digits, a
  hyphen, one or more bytes of the slug class, then anything.
\<close>

definition pattern_at :: "(char \<Rightarrow> bool) \<Rightarrow> string \<Rightarrow> bool" where
  "pattern_at cls s =
     (\<exists>ds sl rest. s = re_literal @ ds @ ''-'' @ sl @ rest
        \<and> ds \<noteq> [] \<and> (\<forall>c \<in> set ds. is_digit c) \<and> sl \<noteq> [] \<and> (\<forall>c \<in> set sl. cls c))"

text \<open>
  The path at which the Fetcher of the batch program looks for, and writes, the
  file of a final URL: none when the URL does not parse or has no file name.
\<close>

definition fetch_target :: "string \<Rightarrow> string \<Rightarrow> string option" where
  "fetch_target finalURL outputDir =
     (case url_Parse finalURL of
        None \<Rightarrow> None
      | Some parsedURL \<Rightarrow>
          if path_Base (Path parsedURL) = [] \<or> path_Base (Path parsedURL) = ''/'' then None
          else Some (filepath_Join outputDir (ensure_pdf (path_Base (Path parsedURL)))))"

text \<open>
  The body of the loop applied to each candidate in turn, with no test of the cap:
  the state the loop is in when it comes to the candidate after \<open>urls\<close>, as long
  as the cap has not stopped it.
\<close>

definition process_all :: "env \<Rightarrow> string \<Rightarrow> string list \<Rightarrow> world \<times> nat \<Rightarrow> world \<times> nat" where
  "process_all e pdfDir urls st = foldl (\<lambda>s url. loop_body e pdfDir url s) st urls"

text \<open>Inputs, worlds and outside answers for the examples.\<close>

definition example_input :: string where
  "example_input = ''https://www.documentcloud.org/documents/23461534-200301254_redactedclosingreport_redacted''"

definition example_final :: string where
  "example_final = ''https://s3.documentcloud.org/documents/23461534/200301254_redactedclosingreport_redacted.pdf''"

definition embed_input :: string where
  "embed_input = ''https://embed.documentcloud.org/documents/42-my-doc/?embed=1''"

definition lookalike_input :: string where
  "lookalike_input = ''https://s3.documentcloud.org.evil.example/a.pdf''"

definition stored_url :: string where
  "stored_url = ''https://s3.documentcloud.org/documents/1/a.pdf''"

definition bare_url :: string where
  "bare_url = ''https://s3.documentcloud.org/documents/1/a''"

definition empty_world :: world where
  "empty_world = \<lparr>fs = Map.empty, log = [], stdout = [], requests = [], created = []\<rparr>"

definition world_with_pdf :: world where
  "world_with_pdf =
     \<lparr>fs = [''NYPD_PDF'' \<mapsto> Dir, ''NYPD_PDF/a.pdf'' \<mapsto> File ''old bytes''],
      log = [], stdout = [], requests = [], created = []\<rparr>"

definition script_world :: world where
  "script_world =
     \<lparr>fs = [''nypd_pdf'' \<mapsto> Dir, ''nypd_pdf/a.pdf'' \<mapsto> File ''old bytes''],
      log = [], stdout = [], requests = [], created = []\<rparr>"

text \<open>
  An outside in which every request is answered with the given status and the body
  \<^verbatim>\<open>new bytes\<close>, the copy failing after the given number of bytes if any; one in
  which no directory can be made and the input file holds a thousand lines; one
  in which the scan of the input file ends in an error after two lines.
\<close>

definition env_answering :: "nat \<Rightarrow> nat option \<Rightarrow> env" where
  "env_answering code fail_at =
     \<lparr>http_Get = (\<lambda>n url. GetResponse
         \<lparr>status = code, final_url = url, body = ''new bytes'', copy_error = fail_at\<rparr>),
      mkdir_denied = (\<lambda>p. False), create_denied = (\<lambda>p. False),
      os_Open = (\<lambda>p. OpenError)\<rparr>"

definition env_no_mkdir :: env where
  "env_no_mkdir =
     \<lparr>http_Get = (\<lambda>n url. GetError),
      mkdir_denied = (\<lambda>p. True), create_denied = (\<lambda>p. False),
      os_Open = (\<lambda>p. Opened (replicate 1000 stored_url) False)\<rparr>"

definition env_scan_error :: env where
  "env_scan_error =
     \<lparr>http_Get = (\<lambda>n url. GetError),
      mkdir_denied = (\<lambda>p. False), create_denied = (\<lambda>p. False),
      os_Open = (\<lambda>p. Opened [stored_url, bare_url] True)\<rparr>"


section \<open>The Pattern Resolver: proofs\<close>

lemma slug_classes_eq: "slug_class_script = slug_class_batch"
  by (auto simp: fun_eq_iff slug_class_script_def slug_class_batch_def word_class_def)

lemma resolvers_eq: "ExtractFinalDocumentCloudURL x = extractFinalDocumentCloudURL x"
  unfolding ExtractFinalDocumentCloudURL_def extractFinalDocumentCloudURL_def slug_classes_eq ..

lemma digit_is_slug: "is_digit c \<Longrightarrow> slug_class_batch c"
  by (simp add: slug_class_batch_def)

lemma slug_class_plain:
  assumes "slug_class_batch c"
  shows "c \<noteq> CHR ''#''" "c \<noteq> CHR ''?''" "c \<noteq> CHR ''%''" "c \<noteq> CHR ''/''"
    "\<not> c < CHR '' ''" "c \<noteq> CHR 0x7F"
  using assms
  by (auto simp: slug_class_batch_def is_lower_def is_upper_def is_digit_def
      less_eq_char_def less_char_def)

lemma strings_Cut_absent: "sep \<notin> set s \<Longrightarrow> strings_Cut s sep = (s, [])"
  by (induction s) (auto simp: strings_Cut_def)

lemma unescape_path_plain: "CHR ''%'' \<notin> set s \<Longrightarrow> unescape encodePath s = Some s"
  by (induction s) auto

lemma HasPrefix_append: "strings_HasPrefix (p @ s) p"
  by (induction p) auto

lemma HasPrefix_iff: "strings_HasPrefix s p \<longleftrightarrow> (\<exists>r. s = p @ r)"
  by (induction s p rule: strings_HasPrefix.induct) auto

lemma HasSuffix_append: "strings_HasSuffix (s @ suf) suf"
  by (simp add: strings_HasSuffix_def HasPrefix_append)

lemma takeWhile_run:
  assumes "\<forall>c \<in> set xs. P c" and "ys = [] \<or> \<not> P (hd ys)"
  shows "takeWhile P (xs @ ys) = xs" "dropWhile P (xs @ ys) = ys"
  using assms by (cases ys; simp)+

lemma match_here_shape:
  assumes "match_here cls s \<noteq> []"
  shows "\<exists>ds sl rest. match_here cls s = [re_literal @ ds @ ''-'' @ sl, ds, sl]
           \<and> s = re_literal @ ds @ ''-'' @ sl @ rest
           \<and> ds \<noteq> [] \<and> (\<forall>c \<in> set ds. is_digit c) \<and> sl \<noteq> [] \<and> (\<forall>c \<in> set sl. cls c)"
proof -
  from assms have pre: "strings_HasPrefix s re_literal"
    by (auto simp: match_here_def split: if_splits)
  then obtain r where s: "s = re_literal @ r" by (auto simp: HasPrefix_iff)
  let ?ds = "takeWhile is_digit r"
  from assms pre s have ds: "?ds \<noteq> []"
    by (auto simp: match_here_def Let_def split: if_splits)
  from assms pre s ds obtain r'' where r'': "dropWhile is_digit r = CHR ''-'' # r''"
    by (auto simp: match_here_def Let_def split: if_splits list.splits)
  let ?sl = "takeWhile cls r''"
  from assms pre s ds r'' have sl: "?sl \<noteq> []"
    by (auto simp: match_here_def Let_def split: if_splits)
  have m: "match_here cls s = [re_literal @ ?ds @ ''-'' @ ?sl, ?ds, ?sl]"
    using pre s ds r'' sl by (simp add: match_here_def Let_def)
  have "r = ?ds @ dropWhile is_digit r" by simp
  also have "\<dots> = ?ds @ ''-'' @ ?sl @ dropWhile cls r''" by (simp add: r'')
  finally have "s = re_literal @ ?ds @ ''-'' @ ?sl @ dropWhile cls r''" using s by simp
  moreover have "\<forall>c \<in> set ?ds. is_digit c" "\<forall>c \<in> set ?sl. cls c"
    by (auto dest: set_takeWhileD)
  ultimately show ?thesis using m ds sl by blast
qed

lemma match_here_decomp:
  assumes "ds \<noteq> []" "\<forall>c \<in> set ds. is_digit c" "sl \<noteq> []" "\<forall>c \<in> set sl. cls c"
    and "rest = [] \<or> \<not> cls (hd rest)"
  shows "match_here cls (re_literal @ ds @ ''-'' @ sl @ rest) = [re_literal @ ds @ ''-'' @ sl, ds, sl]"
proof -
  have nd: "\<not> is_digit CHR ''-''" by (simp add: is_digit_def)
  have 1: "takeWhile is_digit (ds @ ''-'' @ sl @ rest) = ds"
    "dropWhile is_digit (ds @ ''-'' @ sl @ rest) = ''-'' @ sl @ rest"
    using takeWhile_run[of ds is_digit "''-'' @ sl @ rest"] assms(2) nd by simp_all
  have 2: "takeWhile cls (sl @ rest) = sl"
    using takeWhile_run(1)[of sl cls rest] assms(4,5) by simp
  show ?thesis
    using assms(1,3) 1 2 by (simp add: match_here_def HasPrefix_append Let_def)
qed

lemma pattern_at_iff: "pattern_at cls s \<longleftrightarrow> match_here cls s \<noteq> []"
proof
  assume "pattern_at cls s"
  then obtain ds sl rest where s: "s = re_literal @ ds @ ''-'' @ sl @ rest"
    and ds: "ds \<noteq> []" "\<forall>c \<in> set ds. is_digit c" and sl: "sl \<noteq> []" "\<forall>c \<in> set sl. cls c"
    by (auto simp: pattern_at_def)
  let ?sl = "sl @ takeWhile cls rest" and ?rest = "dropWhile cls rest"
  have "s = re_literal @ ds @ ''-'' @ ?sl @ ?rest" using s by simp
  moreover have "?rest = [] \<or> \<not> cls (hd ?rest)"
    by (metis hd_dropWhile)
  moreover have "?sl \<noteq> []" "\<forall>c \<in> set ?sl. cls c" using sl by (auto dest: set_takeWhileD)
  ultimately have "match_here cls s = [re_literal @ ds @ ''-'' @ ?sl, ds, ?sl]"
    using match_here_decomp[OF ds, of ?sl cls ?rest] by simp
  then show "match_here cls s \<noteq> []" by simp
next
  assume "match_here cls s \<noteq> []"
  from match_here_shape[OF this] show "pattern_at cls s"
    unfolding pattern_at_def by blast
qed

lemma Find_leftmost:
  assumes "\<forall>k<length pre. match_here cls (drop k (pre @ s)) = []" and "match_here cls s \<noteq> []"
  shows "FindStringSubmatch cls (pre @ s) = match_here cls s"
  using assms
proof (induction pre)
  case Nil
  then show ?case by (cases s) auto
next
  case (Cons c pre)
  from Cons.prems(1) have 0: "match_here cls ((c # pre) @ s) = []" by force
  have "\<forall>k<length pre. match_here cls (drop k (pre @ s)) = []"
  proof (intro allI impI)
    fix k assume "k < length pre"
    then have "Suc k < length (c # pre)" by simp
    with Cons.prems(1) have "match_here cls (drop (Suc k) ((c # pre) @ s)) = []" by blast
    then show "match_here cls (drop k (pre @ s)) = []" by simp
  qed
  with Cons.IH Cons.prems(2) have "FindStringSubmatch cls (pre @ s) = match_here cls s" by blast
  with 0 show ?case by simp
qed

lemma Find_shape:
  "FindStringSubmatch cls s = [] \<or>
   (\<exists>ds sl. FindStringSubmatch cls s = [re_literal @ ds @ ''-'' @ sl, ds, sl]
      \<and> ds \<noteq> [] \<and> (\<forall>c \<in> set ds. is_digit c) \<and> sl \<noteq> [] \<and> (\<forall>c \<in> set sl. cls c))"
proof (induction s)
  case Nil
  show ?case by (simp add: match_here_def re_literal_def)
next
  case (Cons c s)
  show ?case
  proof (cases "match_here cls (c # s) = []")
    case True
    with Cons show ?thesis by simp
  next
    case False
    from match_here_shape[OF False] False show ?thesis by auto
  qed
qed


lemma getScheme_https: "getScheme (''https:'' @ r) = Some (''https'', r)"
  by (simp add: getScheme_def is_alpha_def is_lower_def is_upper_def is_digit_def)

lemma parseAuthority_s3: "parseAuthority ''s3.documentcloud.org'' = Some ''s3.documentcloud.org''"
  by code_simp

lemma ToLower_https: "strings_ToLower ''https'' = ''https''"
  by (simp add: strings_ToLower_def is_upper_def less_eq_char_def)

lemma url_Parse_s3:
  assumes ctl: "\<forall>c \<in> set t. \<not> c < CHR '' '' \<and> c \<noteq> CHR 0x7F"
    and hash: "CHR ''#'' \<notin> set t" and q: "CHR ''?'' \<notin> set t" and pct: "CHR ''%'' \<notin> set t"
  shows "url_Parse (''https://s3.documentcloud.org/'' @ t) =
    Some \<lparr>Scheme = ''https'', Opaque = [], Host = ''s3.documentcloud.org'', Path = CHR ''/'' # t,
      RawQuery = [], Fragment = []\<rparr>"
proof -
  have tw: "takeWhile (\<lambda>c. c \<noteq> CHR ''#'') t = t" "dropWhile (\<lambda>c. c \<noteq> CHR ''#'') t = []"
    "takeWhile (\<lambda>c. c \<noteq> CHR ''?'') t = t" "dropWhile (\<lambda>c. c \<noteq> CHR ''?'') t = []"
    using hash q by (simp_all add: takeWhile_eq_all_conv dropWhile_eq_Nil_conv) blast+
  have noctl: "\<not> stringContainsCTLByte (''https://s3.documentcloud.org/'' @ t)"
    using ctl by (auto simp: stringContainsCTLByte_def less_char_def)
  have un: "unescape encodePath t = Some t"
    using pct by (rule unescape_path_plain)
  have gs: "getScheme (''https://s3.documentcloud.org/'' @ t) =
      Some (''https'', ''//s3.documentcloud.org/'' @ t)"
    using getScheme_https[of "''//s3.documentcloud.org/'' @ t"] by simp
  have p: "parse (''https://s3.documentcloud.org/'' @ t) =
    Some \<lparr>Scheme = ''https'', Opaque = [], Host = ''s3.documentcloud.org'', Path = CHR ''/'' # t,
      RawQuery = [], Fragment = []\<rparr>"
    unfolding parse_def using noctl
    by (simp add: gs[simplified] ToLower_https strings_Cut_def tw Let_def parseAuthority_s3 un
        empty_URL_def)
  show ?thesis
    unfolding url_Parse_def by (simp add: strings_Cut_def tw p[simplified])
qed

lemma url_Parse_final:
  assumes d: "\<forall>c \<in> set d. is_digit c" and s: "\<forall>c \<in> set sl. slug_class_batch c"
  shows "url_Parse (format_finalURL d sl) =
    Some \<lparr>Scheme = ''https'', Opaque = [], Host = ''s3.documentcloud.org'',
      Path = ''/documents/'' @ d @ ''/'' @ sl @ ''.pdf'', RawQuery = [], Fragment = []\<rparr>"
proof -
  let ?t = "''documents/'' @ d @ ''/'' @ sl @ ''.pdf''"
  have dd: "\<forall>c \<in> set d. slug_class_batch c" using d digit_is_slug by blast
  have fin: "format_finalURL d sl = ''https://s3.documentcloud.org/'' @ ?t"
    by (simp add: format_finalURL_def)
  have 1: "\<forall>c \<in> set ?t. \<not> c < CHR '' '' \<and> c \<noteq> CHR 0x7F"
    using dd s slug_class_plain(5,6) by (auto simp: less_char_def)
  have 2: "CHR ''#'' \<notin> set ?t" using dd s slug_class_plain(1) by auto
  have 3: "CHR ''?'' \<notin> set ?t" using dd s slug_class_plain(2) by auto
  have 4: "CHR ''%'' \<notin> set ?t" using dd s slug_class_plain(3) by auto
  show ?thesis unfolding fin using url_Parse_s3[OF 1 2 3 4] by simp
qed

lemma Contains_s3_self: "strings_Contains ''s3.documentcloud.org'' s3_marker"
  by (simp add: strings_Contains_def s3_marker_def)

lemma Contains_nonempty: "strings_Contains h s3_marker \<Longrightarrow> h \<noteq> []"
  by (auto simp: strings_Contains_def s3_marker_def)

lemma url_Parse_empty: "url_Parse [] = Some empty_URL"
  by (simp add: url_Parse_def parse_def strings_Cut_def stringContainsCTLByte_def getScheme_def
      strings_ToLower_def strings_Contains_def Let_def empty_URL_def)

text \<open>The three ways the resolver can answer.\<close>

lemma resolver_cases:
  "(extractFinalDocumentCloudURL x = []
      \<and> (url_Parse x = None
          \<or> (\<exists>u. url_Parse x = Some u \<and> \<not> strings_Contains (Host u) s3_marker
                \<and> FindStringSubmatch slug_class_batch x = [])))
   \<or> (extractFinalDocumentCloudURL x = x \<and> x \<noteq> []
        \<and> (\<exists>u. url_Parse x = Some u \<and> strings_Contains (Host u) s3_marker))
   \<or> (\<exists>u ds sl. url_Parse x = Some u \<and> \<not> strings_Contains (Host u) s3_marker
        \<and> FindStringSubmatch slug_class_batch x = [re_literal @ ds @ ''-'' @ sl, ds, sl]
        \<and> extractFinalDocumentCloudURL x = format_finalURL ds sl
        \<and> ds \<noteq> [] \<and> (\<forall>c \<in> set ds. is_digit c) \<and> sl \<noteq> [] \<and> (\<forall>c \<in> set sl. slug_class_batch c))"
proof (cases "url_Parse x")
  case None
  then show ?thesis by (simp add: extractFinalDocumentCloudURL_def)
next
  case (Some u)
  show ?thesis
  proof (cases "strings_Contains (Host u) s3_marker")
    case True
    have "x \<noteq> []"
    proof
      assume "x = []"
      with Some have "u = empty_URL" by (simp add: url_Parse_empty)
      with True show False using Contains_nonempty by (auto simp: empty_URL_def)
    qed
    with Some True show ?thesis by (simp add: extractFinalDocumentCloudURL_def)
  next
    case False
    from Find_shape[of slug_class_batch x] show ?thesis
    proof
      assume "FindStringSubmatch slug_class_batch x = []"
      with Some False show ?thesis by (simp add: extractFinalDocumentCloudURL_def)
    next
      assume "\<exists>ds sl. FindStringSubmatch slug_class_batch x = [re_literal @ ds @ ''-'' @ sl, ds, sl]
        \<and> ds \<noteq> [] \<and> (\<forall>c \<in> set ds. is_digit c) \<and> sl \<noteq> [] \<and> (\<forall>c \<in> set sl. slug_class_batch c)"
      then obtain ds sl where
        m: "FindStringSubmatch slug_class_batch x = [re_literal @ ds @ ''-'' @ sl, ds, sl]"
        and p: "ds \<noteq> []" "\<forall>c \<in> set ds. is_digit c" "sl \<noteq> []" "\<forall>c \<in> set sl. slug_class_batch c"
        by blast
      from Some False m have "extractFinalDocumentCloudURL x = format_finalURL ds sl"
        by (simp add: extractFinalDocumentCloudURL_def)
      with Some False m p show ?thesis by blast
    qed
  qed
qed

lemma format_nonempty: "format_finalURL ds sl \<noteq> []"
  by (simp add: format_finalURL_def)

lemma resolver_result_parses:
  assumes "extractFinalDocumentCloudURL x \<noteq> []"
  shows "\<exists>u. url_Parse (extractFinalDocumentCloudURL x) = Some u
           \<and> strings_Contains (Host u) s3_marker
           \<and> (extractFinalDocumentCloudURL x \<noteq> x \<longrightarrow> Host u = ''s3.documentcloud.org'')"
  using resolver_cases[of x] assms
  by (auto simp: url_Parse_final Contains_s3_self)

lemma resolver_idem:
  "extractFinalDocumentCloudURL (extractFinalDocumentCloudURL x) = extractFinalDocumentCloudURL x"
proof (cases "extractFinalDocumentCloudURL x = []")
  case True
  then show ?thesis
    by (simp add: extractFinalDocumentCloudURL_def url_Parse_empty empty_URL_def
        strings_Contains_def s3_marker_def match_here_def re_literal_def)
next
  case False
  from resolver_result_parses[OF False] show ?thesis
    by (auto simp: extractFinalDocumentCloudURL_def)
qed

lemma example_resolves: "extractFinalDocumentCloudURL example_input = example_final"
  unfolding example_input_def example_final_def by code_simp

lemma pattern_found:
  assumes "input = pre @ re_literal @ ds @ ''-'' @ sl @ rest"
    and "ds \<noteq> []" "\<forall>c \<in> set ds. is_digit c" "sl \<noteq> []" "\<forall>c \<in> set sl. cls c"
    and "rest = [] \<or> \<not> cls (hd rest)"
    and "\<forall>k<length pre. \<not> pattern_at cls (drop k input)"
  shows "FindStringSubmatch cls input = [re_literal @ ds @ ''-'' @ sl, ds, sl]"
proof -
  let ?s = "re_literal @ ds @ ''-'' @ sl @ rest"
  have m: "match_here cls ?s = [re_literal @ ds @ ''-'' @ sl, ds, sl]"
    using match_here_decomp[OF assms(2-6)] .
  have "\<forall>k<length pre. match_here cls (drop k (pre @ ?s)) = []"
    using assms(7) unfolding assms(1) pattern_at_iff by simp
  from Find_leftmost[OF this] m show ?thesis unfolding assms(1) by simp
qed

lemma no_earlier_Cons:
  "(\<forall>k<length (c # pre). \<not> pattern_at cls (drop k ((c # pre) @ s)))
     \<longleftrightarrow> \<not> pattern_at cls (c # pre @ s) \<and> (\<forall>k<length pre. \<not> pattern_at cls (drop k (pre @ s)))"
  by (simp add: All_less_Suc2)

text \<open>
  Claim C1. A candidate that parses as a URL whose host does not contain
  \<^verbatim>\<open>s3.documentcloud.org\<close> and that contains the pattern
  \<^verbatim>\<open>documentcloud.org/documents/<digits>-<slug>\<close> resolves to exactly
  \<^verbatim>\<open>https://s3.documentcloud.org/documents/<digits>/<slug>.pdf\<close>, in both programs.
  The digits and the slug are those the search finds: no occurrence of the pattern
  starts further left, and the slug runs as far as word characters and hyphens go.
  In particular the input of the specification's example resolves to the stated URL.
\<close>

theorem pattern_resolver_rewrites:
  assumes "url_Parse input = Some u" and "\<not> strings_Contains (Host u) ''s3.documentcloud.org''"
    and "input = pre @ ''documentcloud.org/documents/'' @ ds @ ''-'' @ sl @ rest"
    and "ds \<noteq> []" and "\<forall>c \<in> set ds. is_digit c"
    and "sl \<noteq> []" and "\<forall>c \<in> set sl. word_class c \<or> c = CHR ''-''"
    and "rest = [] \<or> \<not> (word_class (hd rest) \<or> hd rest = CHR ''-'')"
    and "\<forall>k<length pre. \<not> pattern_at slug_class_batch (drop k input)"
  shows "extractFinalDocumentCloudURL input
           = ''https://s3.documentcloud.org/documents/'' @ ds @ ''/'' @ sl @ ''.pdf''
       \<and> ExtractFinalDocumentCloudURL input
           = ''https://s3.documentcloud.org/documents/'' @ ds @ ''/'' @ sl @ ''.pdf''
       \<and> extractFinalDocumentCloudURL
           ''https://www.documentcloud.org/documents/23461534-200301254_redactedclosingreport_redacted''
           = ''https://s3.documentcloud.org/documents/23461534/200301254_redactedclosingreport_redacted.pdf''
       \<and> ExtractFinalDocumentCloudURL
           ''https://www.documentcloud.org/documents/23461534-200301254_redactedclosingreport_redacted''
           = ''https://s3.documentcloud.org/documents/23461534/200301254_redactedclosingreport_redacted.pdf''"
proof -
  have cls: "slug_class_batch c \<longleftrightarrow> word_class c \<or> c = CHR ''-''" for c
    using slug_classes_eq by (simp add: slug_class_script_def fun_eq_iff)
  have "FindStringSubmatch slug_class_batch input = [re_literal @ ds @ ''-'' @ sl, ds, sl]"
    using assms(3-9) by (intro pattern_found[where pre = pre and rest = rest])
      (simp_all add: cls re_literal_def)
  with assms(1,2) have "extractFinalDocumentCloudURL input = format_finalURL ds sl"
    by (simp add: extractFinalDocumentCloudURL_def s3_marker_def)
  then show ?thesis
    using example_resolves
    by (simp add: resolvers_eq format_finalURL_def example_input_def example_final_def)
qed

theorem pattern_resolver_rewrites_witness:
  "map_option Host (url_Parse embed_input) = Some ''embed.documentcloud.org''
   \<and> \<not> strings_Contains ''embed.documentcloud.org'' ''s3.documentcloud.org''
   \<and> extractFinalDocumentCloudURL embed_input = ''https://s3.documentcloud.org/documents/42/my-doc.pdf''"
proof -
  let ?u = "\<lparr>Scheme = ''https'', Opaque = [], Host = ''embed.documentcloud.org'',
      Path = ''/documents/42-my-doc/'', RawQuery = ''embed=1'', Fragment = []\<rparr>"
  have p: "url_Parse embed_input = Some ?u"
    unfolding embed_input_def by code_simp
  have h: "\<not> strings_Contains (Host ?u) ''s3.documentcloud.org''"
    by code_simp
  have d: "embed_input = ''https://embed.'' @ ''documentcloud.org/documents/'' @ ''42'' @ ''-''
      @ ''my-doc'' @ ''/?embed=1''"
    by (simp add: embed_input_def)
  have "\<forall>k<length ''https://embed.''. \<not> pattern_at slug_class_batch
      (drop k (''https://embed.'' @ ''documentcloud.org/documents/42-my-doc/?embed=1''))"
    by (simp only: no_earlier_Cons) (simp add: pattern_at_iff match_here_def re_literal_def)
  then have l: "\<forall>k<length ''https://embed.''. \<not> pattern_at slug_class_batch (drop k embed_input)"
    by (simp add: embed_input_def)
  have "extractFinalDocumentCloudURL embed_input
      = ''https://s3.documentcloud.org/documents/'' @ ''42'' @ ''/'' @ ''my-doc'' @ ''.pdf''"
    using pattern_resolver_rewrites[OF p h d _ _ _ _ _ l]
    by (simp add: is_digit_def word_class_def is_lower_def is_upper_def)
  with p h show ?thesis by simp
qed

text \<open>
  Claim C2. A candidate that parses as a URL whose host contains
  \<^verbatim>\<open>s3.documentcloud.org\<close> is returned unchanged; and whenever the resolution of
  an input is not empty, resolving the result again gives the same result. Both
  programs.
\<close>

theorem resolver_keeps_storage_urls:
  "(url_Parse x = Some u \<and> strings_Contains (Host u) ''s3.documentcloud.org''
      \<longrightarrow> extractFinalDocumentCloudURL x = x \<and> ExtractFinalDocumentCloudURL x = x)
   \<and> (extractFinalDocumentCloudURL x \<noteq> []
      \<longrightarrow> extractFinalDocumentCloudURL (extractFinalDocumentCloudURL x)
            = extractFinalDocumentCloudURL x)
   \<and> (ExtractFinalDocumentCloudURL x \<noteq> []
      \<longrightarrow> ExtractFinalDocumentCloudURL (ExtractFinalDocumentCloudURL x)
            = ExtractFinalDocumentCloudURL x)"
  using resolver_idem[of x]
  by (simp add: resolvers_eq) (simp add: extractFinalDocumentCloudURL_def s3_marker_def)

theorem resolver_keeps_storage_urls_witness:
  "map_option Host (url_Parse ''https://s3.documentcloud.org/documents/1/a.pdf'')
     = Some ''s3.documentcloud.org''
   \<and> strings_Contains ''s3.documentcloud.org'' ''s3.documentcloud.org''
   \<and> extractFinalDocumentCloudURL ''https://s3.documentcloud.org/documents/1/a.pdf''
       = ''https://s3.documentcloud.org/documents/1/a.pdf''
   \<and> extractFinalDocumentCloudURL example_input \<noteq> []
   \<and> extractFinalDocumentCloudURL (extractFinalDocumentCloudURL example_input)
       = extractFinalDocumentCloudURL example_input"
proof -
  let ?x = "''https://s3.documentcloud.org/documents/1/a.pdf''"
  let ?u = "\<lparr>Scheme = ''https'', Opaque = [], Host = ''s3.documentcloud.org'',
      Path = ''/documents/1/a.pdf'', RawQuery = [], Fragment = []\<rparr>"
  have p: "url_Parse ?x = Some ?u" by code_simp
  have h: "strings_Contains (Host ?u) ''s3.documentcloud.org''" by code_simp
  have n: "extractFinalDocumentCloudURL example_input \<noteq> []"
    by (simp add: example_resolves example_final_def)
  from resolver_keeps_storage_urls[of ?x ?u] p h
  have 1: "extractFinalDocumentCloudURL ?x = ?x" by blast
  from resolver_keeps_storage_urls[of example_input ?u] n
  have 2: "extractFinalDocumentCloudURL (extractFinalDocumentCloudURL example_input)
       = extractFinalDocumentCloudURL example_input" by blast
  from p h 1 n 2 show ?thesis by simp
qed

text \<open>
  A candidate whose host only contains the marker is passed on as it is: the
  result is not empty, and its host is not the storage host.
\<close>

theorem resolver_host_counterexample:
  "extractFinalDocumentCloudURL lookalike_input = lookalike_input
   \<and> lookalike_input \<noteq> []
   \<and> map_option Host (url_Parse (extractFinalDocumentCloudURL lookalike_input))
       = Some ''s3.documentcloud.org.evil.example''
   \<and> ''s3.documentcloud.org.evil.example'' \<noteq> ''s3.documentcloud.org''"
  unfolding lookalike_input_def by code_simp

text \<open>
  Claim C3, as the code has it. A result that is not empty parses as a URL whose
  host contains \<^verbatim>\<open>s3.documentcloud.org\<close>; the host is exactly the storage host
  when the result was rewritten from the pattern, that is, when it differs from
  the input. The result is empty exactly when the input does not parse, or its
  host lacks the marker and the pattern is not found: the empty string is the
  one signal of failure.
\<close>

theorem resolver_result_host:
  "(extractFinalDocumentCloudURL x \<noteq> [] \<longrightarrow>
      (\<exists>u. url_Parse (extractFinalDocumentCloudURL x) = Some u
         \<and> strings_Contains (Host u) ''s3.documentcloud.org''
         \<and> (extractFinalDocumentCloudURL x \<noteq> x \<longrightarrow> Host u = ''s3.documentcloud.org'')))
   \<and> (extractFinalDocumentCloudURL x = [] \<longleftrightarrow>
        url_Parse x = None
        \<or> (\<exists>u. url_Parse x = Some u \<and> \<not> strings_Contains (Host u) ''s3.documentcloud.org''
              \<and> FindStringSubmatch slug_class_batch x = []))"
proof -
  have "extractFinalDocumentCloudURL x = [] \<longleftrightarrow>
        url_Parse x = None
        \<or> (\<exists>u. url_Parse x = Some u \<and> \<not> strings_Contains (Host u) s3_marker
              \<and> FindStringSubmatch slug_class_batch x = [])"
    using resolver_cases[of x] by (auto simp: format_finalURL_def)
  then show ?thesis
    using resolver_result_parses[of x] by (simp add: s3_marker_def)
qed

theorem resolver_result_host_witness:
  "extractFinalDocumentCloudURL example_input \<noteq> []
   \<and> extractFinalDocumentCloudURL example_input \<noteq> example_input
   \<and> map_option Host (url_Parse (extractFinalDocumentCloudURL example_input))
       = Some ''s3.documentcloud.org''
   \<and> strings_Contains ''s3.documentcloud.org'' ''s3.documentcloud.org''
   \<and> url_Parse ''http://a b/'' = None
   \<and> extractFinalDocumentCloudURL ''http://a b/'' = []"
proof -
  have n: "extractFinalDocumentCloudURL example_input \<noteq> []"
    "extractFinalDocumentCloudURL example_input \<noteq> example_input"
    by (simp_all add: example_resolves) (simp_all add: example_final_def example_input_def)
  have b: "url_Parse ''http://a b/'' = None" by code_simp
  from resolver_result_host[of example_input] n
  have 1: "map_option Host (url_Parse (extractFinalDocumentCloudURL example_input))
       = Some ''s3.documentcloud.org''" by auto
  from resolver_result_host[of "''http://a b/''"] b
  have 2: "extractFinalDocumentCloudURL ''http://a b/'' = []" by blast
  have 3: "strings_Contains ''s3.documentcloud.org'' ''s3.documentcloud.org''" by code_simp
  from n 1 2 3 b show ?thesis by simp
qed

section \<open>The Fetcher and the Batch Driver: proofs\<close>

subsection \<open>The file system and the Fetcher\<close>

lemma mkdir_each_keeps: "f a \<noteq> None \<Longrightarrow> fst (mkdir_each e ds f) a = f a"
proof (induction ds arbitrary: f)
  case Nil
  show ?case by simp
next
  case (Cons d ds)
  consider (there) "f d = Some Dir"
    | (stop) "f d \<noteq> Some Dir" "is_file (f d) \<or> mkdir_denied e d"
    | (make) "f d \<noteq> Some Dir" "\<not> is_file (f d)" "\<not> mkdir_denied e d"
    by blast
  then show ?case
  proof cases
    case there
    with Cons.IH[of f] Cons.prems show ?thesis by simp
  next
    case stop
    from stop have "mkdir_each e (d # ds) f = (f, False)" by auto
    then show ?thesis by simp
  next
    case make
    from make have m: "mkdir_each e (d # ds) f = mkdir_each e ds (f(d \<mapsto> Dir))" "f d = None"
      by (auto simp: is_file_def split: option.splits node.splits)
    from m(2) Cons.prems have "a \<noteq> d" by auto
    then have u: "(f(d \<mapsto> Dir)) a = f a" by simp
    with Cons.prems have "(f(d \<mapsto> Dir)) a \<noteq> None" by simp
    with Cons.IH[of "f(d \<mapsto> Dir)"]
    have "fst (mkdir_each e ds (f(d \<mapsto> Dir))) a = (f(d \<mapsto> Dir)) a" by blast
    then show ?thesis unfolding m(1) u .
  qed
qed

lemma mkdir_each_new:
  "f a = None \<Longrightarrow> fst (mkdir_each e ds f) a = None \<or> fst (mkdir_each e ds f) a = Some Dir"
proof (induction ds arbitrary: f)
  case Nil
  then show ?case by simp
next
  case (Cons d ds)
  consider (there) "f d = Some Dir"
    | (stop) "f d \<noteq> Some Dir" "is_file (f d) \<or> mkdir_denied e d"
    | (make) "f d \<noteq> Some Dir" "\<not> is_file (f d)" "\<not> mkdir_denied e d"
    by blast
  then show ?case
  proof cases
    case there
    with Cons.IH[of f] Cons.prems show ?thesis by simp
  next
    case stop
    from stop have "mkdir_each e (d # ds) f = (f, False)" by auto
    with Cons.prems show ?thesis by simp
  next
    case make
    from make have m: "mkdir_each e (d # ds) f = mkdir_each e ds (f(d \<mapsto> Dir))" "f d = None"
      by (auto simp: is_file_def split: option.splits node.splits)
    show ?thesis
    proof (cases "a = d")
      case True
      have "(f(d \<mapsto> Dir)) a \<noteq> None" using True by simp
      with mkdir_each_keeps[of "f(d \<mapsto> Dir)" a e ds]
      have "fst (mkdir_each e ds (f(d \<mapsto> Dir))) a = (f(d \<mapsto> Dir)) a" by blast
      with True show ?thesis unfolding m(1) by simp
    next
      case False
      with Cons.prems have "(f(d \<mapsto> Dir)) a = None" by simp
      with Cons.IH[of "f(d \<mapsto> Dir)"] show ?thesis unfolding m(1) by blast
    qed
  qed
qed

lemma mkdir_each_made:
  "snd (mkdir_each e ds f) \<Longrightarrow> x \<in> set ds \<Longrightarrow> fst (mkdir_each e ds f) x = Some Dir"
proof (induction ds arbitrary: f)
  case Nil
  then show ?case by simp
next
  case (Cons d ds)
  consider (there) "f d = Some Dir"
    | (stop) "f d \<noteq> Some Dir" "is_file (f d) \<or> mkdir_denied e d"
    | (make) "f d \<noteq> Some Dir" "\<not> is_file (f d)" "\<not> mkdir_denied e d"
    by blast
  then show ?case
  proof cases
    case there
    then have m: "mkdir_each e (d # ds) f = mkdir_each e ds f" by simp
    show ?thesis
    proof (cases "x = d")
      case True
      have "f x \<noteq> None" using True there by simp
      with mkdir_each_keeps[of f x e ds] have "fst (mkdir_each e ds f) x = f x" by blast
      with True there show ?thesis unfolding m by simp
    next
      case False
      with Cons.prems(2) have "x \<in> set ds" by simp
      with Cons.IH[of f] Cons.prems(1) show ?thesis unfolding m by blast
    qed
  next
    case stop
    from stop have "mkdir_each e (d # ds) f = (f, False)" by auto
    with Cons.prems(1) show ?thesis by simp
  next
    case make
    from make have m: "mkdir_each e (d # ds) f = mkdir_each e ds (f(d \<mapsto> Dir))" "f d = None"
      by (auto simp: is_file_def split: option.splits node.splits)
    from Cons.prems(1) have s: "snd (mkdir_each e ds (f(d \<mapsto> Dir)))" unfolding m(1) .
    show ?thesis
    proof (cases "x = d")
      case True
      have "(f(d \<mapsto> Dir)) x \<noteq> None" using True by simp
      with mkdir_each_keeps[of "f(d \<mapsto> Dir)" x e ds]
      have "fst (mkdir_each e ds (f(d \<mapsto> Dir))) x = (f(d \<mapsto> Dir)) x" by blast
      with True show ?thesis unfolding m(1) by simp
    next
      case False
      with Cons.prems(2) have "x \<in> set ds" by simp
      with Cons.IH[of "f(d \<mapsto> Dir)"] s show ?thesis unfolding m(1) by blast
    qed
  qed
qed

lemma os_MkdirAll_keeps: "f a \<noteq> None \<Longrightarrow> fst (os_MkdirAll e f p) a = f a"
  using mkdir_each_keeps[of f a] by (simp add: os_MkdirAll_def)

lemma os_MkdirAll_new:
  "f a = None \<Longrightarrow> fst (os_MkdirAll e f p) a = None \<or> fst (os_MkdirAll e f p) a = Some Dir"
  using mkdir_each_new[of f a] by (simp add: os_MkdirAll_def)

lemma os_MkdirAll_dir:
  assumes "snd (os_MkdirAll e f p)"
  shows "os_Stat (fst (os_MkdirAll e f p)) p = Some Dir"
proof (cases "os_Stat f p = Some Dir")
  case True
  then show ?thesis by (simp add: os_MkdirAll_def)
next
  case False
  with assms have p: "p \<noteq> []"
    and s: "snd (mkdir_each e (path_parents (filepath_Clean p) @ [filepath_Clean p]) f)"
    and m: "os_MkdirAll e f p = mkdir_each e (path_parents (filepath_Clean p) @ [filepath_Clean p]) f"
    by (auto simp: os_MkdirAll_def split: if_splits)
  from mkdir_each_made[of e "path_parents (filepath_Clean p) @ [filepath_Clean p]" f
      "filepath_Clean p"] s p
  show ?thesis by (simp add: m os_Stat_def)
qed

lemma os_MkdirAll_noop: "os_Stat f p = Some Dir \<Longrightarrow> os_MkdirAll e f p = (f, True)"
  by (simp add: os_MkdirAll_def)



lemma fileExists_fs: "fileExists w p \<longleftrightarrow> (\<exists>b. os_Stat (fs w) p = Some (File b))"
proof (cases "os_Stat (fs w) p")
  case None
  then show ?thesis by (simp add: fileExists_def)
next
  case (Some n)
  then show ?thesis by (cases n) (simp_all add: fileExists_def)
qed

lemma fileExists_keeps:
  assumes "fileExists w p" and "\<forall>a. fs w a \<noteq> None \<longrightarrow> f' a = fs w a"
  shows "fileExists (w\<lparr>fs := f'\<rparr>) p"
  using assms by (auto simp: fileExists_fs os_Stat_def split: if_splits)

lemma path_Base_nonempty: "path_Base p \<noteq> []"
  by (simp add: path_Base_def Let_def)

lemma downloadPDF_logs_once: "\<exists>m. log (downloadPDF e finalURL outputDir w) = log w @ [m]"
  by (simp add: downloadPDF_def logf_def Let_def split: option.splits get_result.splits)

lemma downloadPDF_stdout: "stdout (downloadPDF e finalURL outputDir w) = stdout w"
  by (simp add: downloadPDF_def logf_def Let_def split: option.splits get_result.splits)

lemma downloadPDF_created:
  "length (created (downloadPDF e finalURL outputDir w)) \<le> length (created w) + 1"
  by (simp add: downloadPDF_def logf_def Let_def split: option.splits get_result.splits)

lemma downloadPDF_existing:
  assumes t: "fetch_target finalURL outputDir = Some p" and ex: "fileExists w p"
  shows "requests (downloadPDF e finalURL outputDir w) = requests w"
    and "created (downloadPDF e finalURL outputDir w) = created w"
    and "\<forall>a. fs w a \<noteq> None \<longrightarrow> fs (downloadPDF e finalURL outputDir w) a = fs w a"
    and "os_Stat (fs w) outputDir = Some Dir
           \<Longrightarrow> downloadPDF e finalURL outputDir w = logf w (Exists_skipping p)"
proof -
  from t obtain u where u: "url_Parse finalURL = Some u"
    and b: "\<not> (path_Base (Path u) = [] \<or> path_Base (Path u) = ''/'')"
    and p: "p = filepath_Join outputDir (ensure_pdf (path_Base (Path u)))"
    by (auto simp: fetch_target_def split: option.splits if_splits)
  let ?f1 = "fst (os_MkdirAll e (fs w) outputDir)"
  have k: "\<forall>a. fs w a \<noteq> None \<longrightarrow> ?f1 a = fs w a"
    using os_MkdirAll_keeps by blast
  with ex have x: "fileExists (w\<lparr>fs := ?f1\<rparr>) p" by (rule fileExists_keeps)
  have w': "downloadPDF e finalURL outputDir w
      = logf (w\<lparr>fs := ?f1\<rparr>)
          (if snd (os_MkdirAll e (fs w) outputDir) then Exists_skipping p
           else Mkdir_failed outputDir)"
    using u b p x by (simp add: downloadPDF_def Let_def)
  show "requests (downloadPDF e finalURL outputDir w) = requests w"
    "created (downloadPDF e finalURL outputDir w) = created w"
    "\<forall>a. fs w a \<noteq> None \<longrightarrow> fs (downloadPDF e finalURL outputDir w) a = fs w a"
    using k by (simp_all add: w' logf_def)
  show "downloadPDF e finalURL outputDir w = logf w (Exists_skipping p)"
    if "os_Stat (fs w) outputDir = Some Dir"
    using os_MkdirAll_noop[OF that, of e] by (simp add: w')
qed

lemma logf_created: "created (logf w m) = created w"
  by (simp add: logf_def)

lemma loop_body_counter:
  "snd st \<le> snd (loop_body e d u st) \<and> snd (loop_body e d u st) \<le> snd st + 1
   \<and> length (created (fst (loop_body e d u st))) + snd st
       \<le> length (created (fst st)) + snd (loop_body e d u st)"
  using downloadPDF_created[of e "extractFinalDocumentCloudURL u" d "fst st"]
  by (simp add: loop_body_def Let_def logf_created split: option.splits)

lemma batch_loop_bound:
  "snd st \<le> maxd \<Longrightarrow>
     snd (batch_loop e maxd d us st) \<le> maxd \<and> snd st \<le> snd (batch_loop e maxd d us st)
     \<and> length (created (fst (batch_loop e maxd d us st))) + snd st
         \<le> length (created (fst st)) + snd (batch_loop e maxd d us st)"
proof (induction us arbitrary: st)
  case Nil
  then show ?case by simp
next
  case (Cons u us)
  show ?case
  proof (cases "maxd \<le> snd st")
    case True
    with Cons.prems show ?thesis by (simp add: logf_created)
  next
    case False
    let ?st' = "loop_body e d u st"
    from loop_body_counter[of st e d u] False have "snd ?st' \<le> maxd" by simp
    from Cons.IH[OF this] loop_body_counter[of st e d u] False show ?thesis by simp
  qed
qed

lemma process_all_Cons:
  "process_all e d (u # us) st = process_all e d us (loop_body e d u st)"
  by (simp add: process_all_def)

lemma process_all_mono: "snd st \<le> snd (process_all e d us st)"
proof (induction us arbitrary: st)
  case Nil
  show ?case by (simp add: process_all_def)
next
  case (Cons u us)
  from Cons[of "loop_body e d u st"] loop_body_counter[of st e d u]
  show ?case by (simp add: process_all_Cons)
qed

lemma batch_loop_reach:
  "us1 = [] \<or> snd (process_all e d (butlast us1) st) < maxd \<Longrightarrow>
     batch_loop e maxd d (us1 @ rest) st = batch_loop e maxd d rest (process_all e d us1 st)"
proof (induction us1 arbitrary: st)
  case Nil
  show ?case by (simp add: process_all_def)
next
  case (Cons u us)
  then have b: "snd (process_all e d (butlast (u # us)) st) < maxd" by simp
  with process_all_mono[of st e d "butlast (u # us)"] have lt: "snd st < maxd" by simp
  have "us = [] \<or> snd (process_all e d (butlast us) (loop_body e d u st)) < maxd"
    using b by (cases "us = []") (simp_all add: process_all_Cons)
  from Cons.IH[OF this] lt show ?case by (simp add: process_all_Cons)
qed

lemma scan_loop_eq: "scan_loop ts acc = acc @ ts"
  by (induction ts arbitrary: acc) simp_all

lemma readFileLines_world:
  "created (snd (readFileLines e f w)) = created w \<and> log (snd (readFileLines e f w)) = log w
   \<and> fs (snd (readFileLines e f w)) = fs w \<and> requests (snd (readFileLines e f w)) = requests w"
  by (simp add: readFileLines_def println_def Let_def split: open_result.splits)

lemma stored_url_facts:
  "extractFinalDocumentCloudURL stored_url = stored_url"
  "url_Parse stored_url = Some \<lparr>Scheme = ''https'', Opaque = [], Host = ''s3.documentcloud.org'',
      Path = ''/documents/1/a.pdf'', RawQuery = [], Fragment = []\<rparr>"
  "path_Base ''/documents/1/a.pdf'' = ''a.pdf''"
  "ensure_pdf ''a.pdf'' = ''a.pdf''"
  "filepath_Join ''./NYPD_PDF/'' ''a.pdf'' = ''NYPD_PDF/a.pdf''"
  "filepath_Clean ''./NYPD_PDF/'' = ''NYPD_PDF''"
  "filepath_Clean ''NYPD_PDF/a.pdf'' = ''NYPD_PDF/a.pdf''"
  "path_parents ''NYPD_PDF'' = []"
  "path_parents ''NYPD_PDF/a.pdf'' = [''NYPD_PDF'']"
  "fetch_target stored_url ''./NYPD_PDF/'' = Some ''NYPD_PDF/a.pdf''"
  unfolding stored_url_def by code_simp+

lemma bare_url_facts:
  "extractFinalDocumentCloudURL bare_url = bare_url"
  "url_Parse bare_url = Some \<lparr>Scheme = ''https'', Opaque = [], Host = ''s3.documentcloud.org'',
      Path = ''/documents/1/a'', RawQuery = [], Fragment = []\<rparr>"
  "path_Base ''/documents/1/a'' = ''a''"
  "ensure_pdf ''a'' = ''a.pdf''"
  "filepath_Join ''./NYPD_PDF/'' ''a'' = ''NYPD_PDF/a''"
  unfolding bare_url_def by code_simp+

lemma world_with_pdf_facts:
  "fileExists world_with_pdf ''NYPD_PDF/a.pdf''"
  "\<not> fileExists world_with_pdf ''NYPD_PDF/a''"
  "os_Stat (fs world_with_pdf) ''./NYPD_PDF/'' = Some Dir"
  "fs world_with_pdf ''NYPD_PDF/a.pdf'' = Some (File ''old bytes'')"
  "requests world_with_pdf = []" "log world_with_pdf = []" "created world_with_pdf = []"
  unfolding world_with_pdf_def by code_simp+

lemma not_a_url: "extractFinalDocumentCloudURL ''not a url at all'' = []"
  by code_simp

lemma downloadPDF_denied:
  assumes "fs w = Map.empty"
  shows "downloadPDF env_no_mkdir stored_url ''./NYPD_PDF/'' w = logf w (Mkdir_failed ''./NYPD_PDF/'')"
proof -
  have "os_MkdirAll env_no_mkdir (fs w) ''./NYPD_PDF/'' = (fs w, False)"
    using assms
    by (simp add: os_MkdirAll_def os_Stat_def is_file_def env_no_mkdir_def stored_url_facts)
  then show ?thesis by (simp add: downloadPDF_def stored_url_facts Let_def)
qed

lemma loop_body_denied:
  assumes "fs w = Map.empty"
  shows "loop_body env_no_mkdir ''./NYPD_PDF/'' stored_url (w, c)
           = (logf w (Mkdir_failed ''./NYPD_PDF/''), c + 1)"
proof -
  have 1: "\<not> fileExists w ''NYPD_PDF/a.pdf''"
    using assms by (simp add: fileExists_def os_Stat_def)
  have 2: "os_MkdirAll env_no_mkdir (fs w) ''./NYPD_PDF/'' = (fs w, False)"
    using assms
    by (simp add: os_MkdirAll_def os_Stat_def is_file_def env_no_mkdir_def stored_url_facts)
  have "stored_url \<noteq> []" by (simp add: stored_url_def)
  with 1 2 show ?thesis
    by (simp add: loop_body_def downloadPDF_def stored_url_facts Let_def)
qed

lemma process_all_denied:
  assumes "fs w = Map.empty"
  shows "process_all env_no_mkdir ''./NYPD_PDF/'' (replicate n stored_url) (w, c)
           = (w\<lparr>log := log w @ replicate n (Mkdir_failed ''./NYPD_PDF/'')\<rparr>, c + n)"
  using assms
proof (induction n arbitrary: w c)
  case 0
  show ?case by (simp add: process_all_def)
next
  case (Suc n)
  have "fs (logf w (Mkdir_failed ''./NYPD_PDF/'')) = Map.empty"
    using Suc.prems by (simp add: logf_def)
  from Suc.IH[OF this, of "c + 1"] show ?case
    by (simp add: process_all_Cons loop_body_denied[OF Suc.prems] logf_def replicate_app_Cons_same)
qed

lemma butlast_replicate_Suc: "butlast (replicate (Suc n) x) = replicate n x"
  by (induction n) simp_all

lemma path_Base_last:
  assumes "CHR ''/'' \<notin> set name" and "name \<noteq> []"
  shows "path_Base (dir @ ''/'' @ name) = name"
proof -
  have l: "last name \<noteq> CHR ''/''" using assms by (metis last_in_set)
  have r: "rev (dir @ ''/'' @ name) = rev name @ CHR ''/'' # rev dir" by simp
  have h: "hd (rev name) \<noteq> CHR ''/''" using assms l by (simp add: hd_rev)
  have 1: "dropWhile (\<lambda>c. c = CHR ''/'') (rev name @ CHR ''/'' # rev dir) = rev name @ CHR ''/'' # rev dir"
    using assms(2) h by (cases "rev name") simp_all
  have 2: "takeWhile (\<lambda>c. c \<noteq> CHR ''/'') (rev name @ CHR ''/'' # rev dir) = rev name"
    using assms(1) takeWhile_run(1)[of "rev name" "\<lambda>c. c \<noteq> CHR ''/''" "CHR ''/'' # rev dir"]
    by auto
  show ?thesis
    unfolding path_Base_def Let_def r 1 using assms(2) 2 by simp
qed

lemma ensure_pdf_suffixed: "ensure_pdf (sl @ ''.pdf'') = sl @ ''.pdf''"
proof -
  have "strings_ToLower (sl @ ''.pdf'') = strings_ToLower sl @ ''.pdf''"
    by (simp add: strings_ToLower_def is_upper_def less_eq_char_def)
  then show ?thesis by (simp add: ensure_pdf_def HasSuffix_append)
qed

subsection \<open>The download cap\<close>

text \<open>
  A list of a thousand candidates, each of which is attempted and fails: the
  counter reaches the cap on the last one, the loop ends, and the message about
  the cap is never logged.
\<close>

theorem cap_without_message_counterexample:
  "os_Open env_no_mkdir ''extracted_urls.txt'' = Opened (replicate 1000 stored_url) False
   \<and> snd (main env_no_mkdir empty_world) = 1000
   \<and> Cap_reached 1000 \<notin> set (log (fst (main env_no_mkdir empty_world)))"
proof -
  have e: "fs empty_world = Map.empty" by (simp add: empty_world_def)
  have r: "readFileLines env_no_mkdir ''extracted_urls.txt'' empty_world
      = (replicate 1000 stored_url, empty_world)"
    by (simp add: readFileLines_def env_no_mkdir_def scan_loop_eq)
  have "snd (process_all env_no_mkdir ''./NYPD_PDF/'' (butlast (replicate (Suc 999) stored_url))
      (empty_world, 0)) < 1000"
    unfolding butlast_replicate_Suc by (simp add: process_all_denied[OF e])
  then have "replicate 1000 stored_url = [] \<or>
      snd (process_all env_no_mkdir ''./NYPD_PDF/'' (butlast (replicate 1000 stored_url))
        (empty_world, 0)) < 1000" by simp
  from batch_loop_reach[OF this, of "[]"]
  have "main env_no_mkdir empty_world
      = (empty_world\<lparr>log := log empty_world @ replicate 1000 (Mkdir_failed ''./NYPD_PDF/'')\<rparr>, 1000)"
    by (simp add: main_def r process_all_denied[OF e])
  moreover have "os_Open env_no_mkdir ''extracted_urls.txt'' = Opened (replicate 1000 stored_url) False"
    by (simp add: env_no_mkdir_def)
  ultimately show ?thesis by (simp add: empty_world_def)
qed

text \<open>
  Claim C4, as the code has it. In a run, for every input list, at most 1000
  files are created. When the counter has reached the cap and a candidate
  remains, the loop logs that the cap was hit and stops: the state is the one
  reached before, plus the message, and neither that candidate nor a later one is
  resolved or fetched. When no candidate remains the run ends without the
  message (the test stands at the top of the loop body).
\<close>

theorem download_cap:
  "length (created (fst (main e w))) \<le> length (created w) + 1000
   \<and> length (created (fst (batch_loop e 1000 d urls (w, 0)))) \<le> length (created w) + 1000
   \<and> ((us1 = [] \<or> snd (process_all e d (butlast us1) st) < maxd)
        \<and> maxd \<le> snd (process_all e d us1 st) \<longrightarrow>
        batch_loop e maxd d us1 st = process_all e d us1 st
        \<and> batch_loop e maxd d (us1 @ u # us2) st
            = (logf (fst (process_all e d us1 st)) (Cap_reached maxd),
               snd (process_all e d us1 st)))"
proof (intro conjI impI)
  show "length (created (fst (main e w))) \<le> length (created w) + 1000"
    using batch_loop_bound[of "(snd (readFileLines e ''extracted_urls.txt'' w), 0)" 1000 e
        "''./NYPD_PDF/''" "fst (readFileLines e ''extracted_urls.txt'' w)"]
      readFileLines_world[of e "''extracted_urls.txt''" w]
    by (simp add: main_def Let_def)
  show "length (created (fst (batch_loop e 1000 d urls (w, 0)))) \<le> length (created w) + 1000"
    using batch_loop_bound[of "(w, 0)" 1000 e d urls] by simp
next
  assume a: "(us1 = [] \<or> snd (process_all e d (butlast us1) st) < maxd)
        \<and> maxd \<le> snd (process_all e d us1 st)"
  then have r: "us1 = [] \<or> snd (process_all e d (butlast us1) st) < maxd" by simp
  from batch_loop_reach[OF r, of "[]"]
  show "batch_loop e maxd d us1 st = process_all e d us1 st" by simp
  from batch_loop_reach[OF r, of "u # us2"] a
  show "batch_loop e maxd d (us1 @ u # us2) st
            = (logf (fst (process_all e d us1 st)) (Cap_reached maxd),
               snd (process_all e d us1 st))" by simp
qed

theorem download_cap_witness:
  "snd (process_all env_no_mkdir ''./NYPD_PDF/'' (butlast (replicate 1000 stored_url))
        (empty_world, 0)) < 1000
   \<and> 1000 \<le> snd (process_all env_no_mkdir ''./NYPD_PDF/'' (replicate 1000 stored_url)
        (empty_world, 0))
   \<and> snd (batch_loop env_no_mkdir 1000 ''./NYPD_PDF/'' (replicate 1000 stored_url @ [bare_url])
        (empty_world, 0)) = 1000
   \<and> log (fst (batch_loop env_no_mkdir 1000 ''./NYPD_PDF/'' (replicate 1000 stored_url @ [bare_url])
        (empty_world, 0)))
       = replicate 1000 (Mkdir_failed ''./NYPD_PDF/'') @ [Cap_reached 1000]"
proof -
  have e: "fs empty_world = Map.empty" by (simp add: empty_world_def)
  have "snd (process_all env_no_mkdir ''./NYPD_PDF/'' (butlast (replicate (Suc 999) stored_url))
      (empty_world, 0)) < 1000"
    unfolding butlast_replicate_Suc by (simp add: process_all_denied[OF e])
  then have 1: "snd (process_all env_no_mkdir ''./NYPD_PDF/'' (butlast (replicate 1000 stored_url))
        (empty_world, 0)) < 1000" by simp
  have 2: "1000 \<le> snd (process_all env_no_mkdir ''./NYPD_PDF/'' (replicate 1000 stored_url)
        (empty_world, 0))"
    by (simp add: process_all_denied[OF e])
  from download_cap[of env_no_mkdir empty_world "''./NYPD_PDF/''" "[]" "replicate 1000 stored_url"
      "(empty_world, 0)" 1000 bare_url "[]"] 1 2
  have "batch_loop env_no_mkdir 1000 ''./NYPD_PDF/'' (replicate 1000 stored_url @ [bare_url])
        (empty_world, 0)
      = (logf (fst (process_all env_no_mkdir ''./NYPD_PDF/'' (replicate 1000 stored_url)
            (empty_world, 0))) (Cap_reached 1000),
         snd (process_all env_no_mkdir ''./NYPD_PDF/'' (replicate 1000 stored_url)
            (empty_world, 0)))"
    by blast
  with 1 2 show ?thesis
    by (simp add: process_all_denied[OF e] logf_def) (simp add: empty_world_def)
qed

subsection \<open>One candidate\<close>

text \<open>
  Claim C5. For a candidate the loop comes to below the cap: when the resolution
  is empty, the driver logs, leaves the world otherwise and the counter as they
  were, and goes on with the rest of the list; else the resolved URL parses, and
  when the file the driver derives from it exists the driver logs, the counter
  stays, and the loop goes on; and when it does not exist the Fetcher is called,
  the counter goes up by one whatever the Fetcher did, and the loop goes on. At
  the end of the list the loop returns the state it has.
\<close>

theorem driver_step:
  "(extractFinalDocumentCloudURL url = [] \<longrightarrow>
      loop_body e pdfDir url (w, c) = (logf w (Unrecognized_URL url), c)
      \<and> (c < maxd \<longrightarrow> batch_loop e maxd pdfDir (url # urls) (w, c)
            = batch_loop e maxd pdfDir urls (logf w (Unrecognized_URL url), c)))
   \<and> (extractFinalDocumentCloudURL url \<noteq> [] \<longrightarrow>
      (\<exists>u. url_Parse (extractFinalDocumentCloudURL url) = Some u
         \<and> (fileExists w (filepath_Join pdfDir (path_Base (Path u))) \<longrightarrow>
              loop_body e pdfDir url (w, c)
                = (logf w (Exists_not_counted (filepath_Join pdfDir (path_Base (Path u)))), c)
              \<and> (c < maxd \<longrightarrow> batch_loop e maxd pdfDir (url # urls) (w, c)
                    = batch_loop e maxd pdfDir urls
                        (logf w (Exists_not_counted (filepath_Join pdfDir (path_Base (Path u)))), c)))
         \<and> (\<not> fileExists w (filepath_Join pdfDir (path_Base (Path u))) \<longrightarrow>
              loop_body e pdfDir url (w, c)
                = (downloadPDF e (extractFinalDocumentCloudURL url) pdfDir w, c + 1)
              \<and> (c < maxd \<longrightarrow> batch_loop e maxd pdfDir (url # urls) (w, c)
                    = batch_loop e maxd pdfDir urls
                        (downloadPDF e (extractFinalDocumentCloudURL url) pdfDir w, c + 1)))))
   \<and> batch_loop e maxd pdfDir [] (w, c) = (w, c)"
proof -
  have k: "c < maxd \<Longrightarrow> batch_loop e maxd pdfDir (url # urls) (w, c)
      = batch_loop e maxd pdfDir urls (loop_body e pdfDir url (w, c))"
    by simp
  have 1: "loop_body e pdfDir url (w, c) = (logf w (Unrecognized_URL url), c)"
    if "extractFinalDocumentCloudURL url = []"
    using that by (simp add: loop_body_def)
  have 2: "\<exists>u. url_Parse (extractFinalDocumentCloudURL url) = Some u
         \<and> (fileExists w (filepath_Join pdfDir (path_Base (Path u))) \<longrightarrow>
              loop_body e pdfDir url (w, c)
                = (logf w (Exists_not_counted (filepath_Join pdfDir (path_Base (Path u)))), c))
         \<and> (\<not> fileExists w (filepath_Join pdfDir (path_Base (Path u))) \<longrightarrow>
              loop_body e pdfDir url (w, c)
                = (downloadPDF e (extractFinalDocumentCloudURL url) pdfDir w, c + 1))"
    if n: "extractFinalDocumentCloudURL url \<noteq> []"
  proof -
    from resolver_result_parses[OF n] obtain u where
      u: "url_Parse (extractFinalDocumentCloudURL url) = Some u" by blast
    with n path_Base_nonempty[of "Path u"] show ?thesis
      by (simp add: loop_body_def Let_def)
  qed
  show ?thesis
  proof (intro conjI impI)
    assume "extractFinalDocumentCloudURL url = []"
    from 1[OF this] show "loop_body e pdfDir url (w, c) = (logf w (Unrecognized_URL url), c)" .
    then show "c < maxd \<Longrightarrow> batch_loop e maxd pdfDir (url # urls) (w, c)
            = batch_loop e maxd pdfDir urls (logf w (Unrecognized_URL url), c)"
      using k by simp
  next
    assume "extractFinalDocumentCloudURL url \<noteq> []"
    from 2[OF this] obtain u where u: "url_Parse (extractFinalDocumentCloudURL url) = Some u"
      and x: "fileExists w (filepath_Join pdfDir (path_Base (Path u))) \<longrightarrow>
              loop_body e pdfDir url (w, c)
                = (logf w (Exists_not_counted (filepath_Join pdfDir (path_Base (Path u)))), c)"
      and y: "\<not> fileExists w (filepath_Join pdfDir (path_Base (Path u))) \<longrightarrow>
              loop_body e pdfDir url (w, c)
                = (downloadPDF e (extractFinalDocumentCloudURL url) pdfDir w, c + 1)"
      by blast
    from u x y k show "\<exists>u. url_Parse (extractFinalDocumentCloudURL url) = Some u
         \<and> (fileExists w (filepath_Join pdfDir (path_Base (Path u))) \<longrightarrow>
              loop_body e pdfDir url (w, c)
                = (logf w (Exists_not_counted (filepath_Join pdfDir (path_Base (Path u)))), c)
              \<and> (c < maxd \<longrightarrow> batch_loop e maxd pdfDir (url # urls) (w, c)
                    = batch_loop e maxd pdfDir urls
                        (logf w (Exists_not_counted (filepath_Join pdfDir (path_Base (Path u)))), c)))
         \<and> (\<not> fileExists w (filepath_Join pdfDir (path_Base (Path u))) \<longrightarrow>
              loop_body e pdfDir url (w, c)
                = (downloadPDF e (extractFinalDocumentCloudURL url) pdfDir w, c + 1)
              \<and> (c < maxd \<longrightarrow> batch_loop e maxd pdfDir (url # urls) (w, c)
                    = batch_loop e maxd pdfDir urls
                        (downloadPDF e (extractFinalDocumentCloudURL url) pdfDir w, c + 1)))"
      by (intro exI[of _ u]) simp
  next
    show "batch_loop e maxd pdfDir [] (w, c) = (w, c)" by simp
  qed
qed

theorem driver_step_witness:
  "extractFinalDocumentCloudURL ''not a url at all'' = []
   \<and> extractFinalDocumentCloudURL stored_url \<noteq> []
   \<and> \<not> fileExists (logf empty_world (Unrecognized_URL ''not a url at all'')) ''NYPD_PDF/a.pdf''
   \<and> batch_loop env_no_mkdir 1000 ''./NYPD_PDF/'' [''not a url at all'', stored_url] (empty_world, 0)
       = (logf (logf empty_world (Unrecognized_URL ''not a url at all''))
            (Mkdir_failed ''./NYPD_PDF/''), 1)
   \<and> fileExists world_with_pdf ''NYPD_PDF/a.pdf''
   \<and> batch_loop (env_answering 200 None) 1000 ''./NYPD_PDF/'' [stored_url] (world_with_pdf, 0)
       = (logf world_with_pdf (Exists_not_counted ''NYPD_PDF/a.pdf''), 0)"
proof -
  let ?d = "''./NYPD_PDF/''"
  let ?w1 = "logf empty_world (Unrecognized_URL ''not a url at all'')"
  have n: "extractFinalDocumentCloudURL stored_url \<noteq> []"
    by (simp add: stored_url_facts) (simp add: stored_url_def)
  have e1: "fs ?w1 = Map.empty" by (simp add: logf_def empty_world_def)
  then have x: "\<not> fileExists ?w1 ''NYPD_PDF/a.pdf''"
    by (simp add: fileExists_def os_Stat_def)
  from driver_step[of "''not a url at all''" env_no_mkdir ?d empty_world 0 1000 "[stored_url]"]
    not_a_url
  have 1: "batch_loop env_no_mkdir 1000 ?d [''not a url at all'', stored_url] (empty_world, 0)
      = batch_loop env_no_mkdir 1000 ?d [stored_url] (?w1, 0)"
    by simp
  from driver_step[of stored_url env_no_mkdir ?d ?w1 0 1000 "[]"] n x
  have 2: "batch_loop env_no_mkdir 1000 ?d [stored_url] (?w1, 0)
      = batch_loop env_no_mkdir 1000 ?d [] (downloadPDF env_no_mkdir stored_url ?d ?w1, 1)"
    by (simp add: stored_url_facts)
  from driver_step[of stored_url env_no_mkdir ?d "downloadPDF env_no_mkdir stored_url ?d ?w1" 1 1000 "[]"]
  have 3: "batch_loop env_no_mkdir 1000 ?d [] (downloadPDF env_no_mkdir stored_url ?d ?w1, 1)
      = (downloadPDF env_no_mkdir stored_url ?d ?w1, 1)"
    by blast
  have 4: "batch_loop env_no_mkdir 1000 ?d [''not a url at all'', stored_url] (empty_world, 0)
      = (logf ?w1 (Mkdir_failed ?d), 1)"
    unfolding 1 2 3 by (simp add: downloadPDF_denied[OF e1])
  from driver_step[of stored_url "env_answering 200 None" ?d world_with_pdf 0 1000 "[]"] n
    world_with_pdf_facts(1)
  have 5: "batch_loop (env_answering 200 None) 1000 ?d [stored_url] (world_with_pdf, 0)
      = batch_loop (env_answering 200 None) 1000 ?d []
          (logf world_with_pdf (Exists_not_counted ''NYPD_PDF/a.pdf''), 0)"
    by (simp add: stored_url_facts)
  from driver_step[of stored_url "env_answering 200 None" ?d
      "logf world_with_pdf (Exists_not_counted ''NYPD_PDF/a.pdf'')" 0 1000 "[]"]
  have 6: "batch_loop (env_answering 200 None) 1000 ?d []
          (logf world_with_pdf (Exists_not_counted ''NYPD_PDF/a.pdf''), 0)
      = (logf world_with_pdf (Exists_not_counted ''NYPD_PDF/a.pdf''), 0)"
    by blast
  from not_a_url n x 4 world_with_pdf_facts(1) 5 6 show ?thesis by simp
qed

subsection \<open>The two file names\<close>

text \<open>
  For a URL the resolver has rewritten from the pattern, the driver and the Fetcher
  derive the same file name.
\<close>

lemma rewritten_names_agree:
  assumes "\<forall>c \<in> set ds. is_digit c" and "\<forall>c \<in> set sl. slug_class_batch c"
  shows "\<exists>u. url_Parse (format_finalURL ds sl) = Some u
           \<and> path_Base (Path u) = sl @ ''.pdf''
           \<and> ensure_pdf (path_Base (Path u)) = path_Base (Path u)"
proof -
  have "CHR ''/'' \<notin> set (sl @ ''.pdf'')" using assms(2) slug_class_plain(4) by auto
  from path_Base_last[OF this, of "''/documents/'' @ ds"]
  have "path_Base (''/documents/'' @ ds @ ''/'' @ sl @ ''.pdf'') = sl @ ''.pdf''" by simp
  then show ?thesis
    using url_Parse_final[OF assms] by (simp add: ensure_pdf_suffixed)
qed

text \<open>
  Claim C6 fails on the code. A storage URL that does not end in \<^verbatim>\<open>.pdf\<close> is
  passed on as it is; the driver derives the name \<^verbatim>\<open>a\<close> and tests
  \<^verbatim>\<open>NYPD_PDF/a\<close>, the Fetcher appends the suffix and tests \<^verbatim>\<open>NYPD_PDF/a.pdf\<close>.
  With that file on disk the driver calls the Fetcher and counts a download,
  and the Fetcher skips it.
\<close>

theorem driver_and_fetcher_names_differ:
  "extractFinalDocumentCloudURL bare_url = bare_url
   \<and> map_option (\<lambda>u. path_Base (Path u)) (url_Parse bare_url) = Some ''a''
   \<and> map_option (\<lambda>u. ensure_pdf (path_Base (Path u))) (url_Parse bare_url) = Some ''a.pdf''
   \<and> filepath_Join ''./NYPD_PDF/'' ''a'' = ''NYPD_PDF/a''
   \<and> fetch_target bare_url ''./NYPD_PDF/'' = Some ''NYPD_PDF/a.pdf''
   \<and> \<not> fileExists world_with_pdf ''NYPD_PDF/a''
   \<and> fileExists world_with_pdf ''NYPD_PDF/a.pdf''
   \<and> loop_body e ''./NYPD_PDF/'' bare_url (world_with_pdf, c)
       = (logf world_with_pdf (Exists_skipping ''NYPD_PDF/a.pdf''), c + 1)"
proof -
  have t: "fetch_target bare_url ''./NYPD_PDF/'' = Some ''NYPD_PDF/a.pdf''"
    unfolding bare_url_def by code_simp
  have "bare_url \<noteq> []" by (simp add: bare_url_def)
  then have "loop_body e ''./NYPD_PDF/'' bare_url (world_with_pdf, c)
      = (downloadPDF e bare_url ''./NYPD_PDF/'' world_with_pdf, c + 1)"
    by (simp add: loop_body_def bare_url_facts world_with_pdf_facts Let_def)
  moreover have "downloadPDF e bare_url ''./NYPD_PDF/'' world_with_pdf
      = logf world_with_pdf (Exists_skipping ''NYPD_PDF/a.pdf'')"
    using downloadPDF_existing(4)[OF t world_with_pdf_facts(1) world_with_pdf_facts(3)] .
  ultimately show ?thesis
    using t by (simp add: bare_url_facts world_with_pdf_facts)
qed

subsection \<open>A file that is already there\<close>

text \<open>
  The companion script's \<^verbatim>\<open>downloadPDF\<close> has no test for an existing file: with
  the target on disk it still issues the request and writes the new bytes over
  the old ones.
\<close>

theorem script_fetcher_overwrites_counterexample:
  "fileExists script_world ''nypd_pdf/a.pdf''
   \<and> fs script_world ''nypd_pdf/a.pdf'' = Some (File ''old bytes'')
   \<and> requests script_world = []
   \<and> requests (downloadPDF_redirect (env_answering 200 None) stored_url ''nypd_pdf/'' script_world)
       = [stored_url]
   \<and> fs (downloadPDF_redirect (env_answering 200 None) stored_url ''nypd_pdf/'' script_world)
        ''nypd_pdf/a.pdf'' = Some (File ''new bytes'')
   \<and> created (downloadPDF_redirect (env_answering 200 None) stored_url ''nypd_pdf/'' script_world)
       = [''nypd_pdf/a.pdf'']"
  unfolding script_world_def env_answering_def stored_url_def by code_simp

text \<open>
  Claim C7, as the code has it, for the Fetcher of the batch program. When the
  path derived from the final URL and the output directory holds a regular file,
  the Fetcher issues no request and creates nothing, logs one line and returns;
  nothing that exists in the file system changes, the file least of all; and
  when the output directory exists, as it does around a file, the world is the
  same but for the line \<^verbatim>\<open>File already exists, skipping\<close>.
\<close>

theorem fetcher_skips_existing_file:
  assumes "fetch_target finalURL outputDir = Some p" and "fileExists w p"
  shows "requests (downloadPDF e finalURL outputDir w) = requests w
    \<and> created (downloadPDF e finalURL outputDir w) = created w
    \<and> stdout (downloadPDF e finalURL outputDir w) = stdout w
    \<and> (\<exists>m. log (downloadPDF e finalURL outputDir w) = log w @ [m])
    \<and> (\<forall>a. fs w a \<noteq> None \<longrightarrow> fs (downloadPDF e finalURL outputDir w) a = fs w a)
    \<and> os_Stat (fs (downloadPDF e finalURL outputDir w)) p = os_Stat (fs w) p
    \<and> (os_Stat (fs w) outputDir = Some Dir
         \<longrightarrow> downloadPDF e finalURL outputDir w = logf w (Exists_skipping p))"
proof -
  from assms(2) obtain b where b: "os_Stat (fs w) p = Some (File b)"
    by (auto simp: fileExists_fs)
  have k: "\<forall>a. fs w a \<noteq> None \<longrightarrow> fs (downloadPDF e finalURL outputDir w) a = fs w a"
    using downloadPDF_existing(3)[OF assms] .
  from b k have "os_Stat (fs (downloadPDF e finalURL outputDir w)) p = os_Stat (fs w) p"
    by (auto simp: os_Stat_def split: if_splits)
  then show ?thesis
    using downloadPDF_existing(1,2,4)[OF assms, of e] k downloadPDF_stdout[of e finalURL outputDir w]
      downloadPDF_logs_once[of e finalURL outputDir w]
    by blast
qed

theorem fetcher_skips_existing_file_witness:
  "fetch_target stored_url ''./NYPD_PDF/'' = Some ''NYPD_PDF/a.pdf''
   \<and> fileExists world_with_pdf ''NYPD_PDF/a.pdf''
   \<and> os_Stat (fs world_with_pdf) ''./NYPD_PDF/'' = Some Dir
   \<and> downloadPDF (env_answering 200 None) stored_url ''./NYPD_PDF/'' world_with_pdf
       = logf world_with_pdf (Exists_skipping ''NYPD_PDF/a.pdf'')
   \<and> requests (downloadPDF (env_answering 200 None) stored_url ''./NYPD_PDF/'' world_with_pdf) = []
   \<and> fs (downloadPDF (env_answering 200 None) stored_url ''./NYPD_PDF/'' world_with_pdf)
        ''NYPD_PDF/a.pdf'' = Some (File ''old bytes'')"
  using fetcher_skips_existing_file[OF stored_url_facts(10) world_with_pdf_facts(1),
      of "env_answering 200 None"]
    stored_url_facts(10) world_with_pdf_facts
  by (simp add: logf_def)

subsection \<open>Failures of the Fetcher\<close>



text \<open>
  Claim C9. When the destination file is created and the copy of the body fails
  after \<open>k\<close> bytes, the file stays on disk with those \<open>k\<close> bytes, the failure is
  logged, and afterwards the test for an existing file succeeds: a further call
  of the Fetcher for the same URL, whatever the outside answers, only logs that
  the file already exists.
\<close>

theorem partial_file_remains:
  assumes t: "fetch_target finalURL outputDir = Some p"
    and m: "os_MkdirAll e (fs w) outputDir = (f1, True)"
    and n: "\<not> fileExists (w\<lparr>fs := f1\<rparr>) p"
    and g: "http_Get e (length (requests w)) finalURL = GetResponse r" and s: "status r = 200"
    and c: "os_Create e f1 p = Some f3"
    and k: "copy_error r = Some k"
  shows "log (downloadPDF e finalURL outputDir w) = log w @ [Copy_failed p]
    \<and> os_Stat (fs (downloadPDF e finalURL outputDir w)) p = Some (File (take k (body r)))
    \<and> fileExists (downloadPDF e finalURL outputDir w) p
    \<and> downloadPDF e' finalURL outputDir (downloadPDF e finalURL outputDir w)
        = logf (downloadPDF e finalURL outputDir w) (Exists_skipping p)"
proof -
  let ?w' = "downloadPDF e finalURL outputDir w"
  from t obtain u where u: "url_Parse finalURL = Some u"
    and b: "\<not> (path_Base (Path u) = [] \<or> path_Base (Path u) = ''/'')"
    and p: "p = filepath_Join outputDir (ensure_pdf (path_Base (Path u)))"
    by (auto simp: fetch_target_def split: option.splits if_splits)
  have w': "?w' = logf (w\<lparr>fs := write_file f3 p (take k (body r)),
      requests := requests w @ [finalURL], created := created w @ [p]\<rparr>) (Copy_failed p)"
    using u b p m n g s c k by (simp add: downloadPDF_def Let_def logf_def)
  from c have pne: "p \<noteq> []" and nd: "os_Stat f1 p \<noteq> Some Dir"
    and f3: "f3 = f1(filepath_Clean p \<mapsto> File [])"
    by (auto simp: os_Create_def split: if_splits)
  have st: "os_Stat (fs ?w') p = Some (File (take k (body r)))"
    using pne by (simp add: w' logf_def write_file_def os_Stat_def)
  then have ex: "fileExists ?w' p" by (simp add: fileExists_fs)
  from os_MkdirAll_dir[of e "fs w" outputDir] m have d: "os_Stat f1 outputDir = Some Dir"
    by simp
  with nd pne have "os_Stat (fs ?w') outputDir = Some Dir"
    by (auto simp: w' logf_def write_file_def f3 os_Stat_def split: if_splits)
  from downloadPDF_existing(4)[OF t ex this]
  have "downloadPDF e' finalURL outputDir ?w' = logf ?w' (Exists_skipping p)" .
  with st ex show ?thesis by (simp add: w' logf_def)
qed

theorem partial_file_remains_witness:
  "fetch_target stored_url ''./NYPD_PDF/'' = Some ''NYPD_PDF/a.pdf''
   \<and> \<not> fileExists empty_world ''NYPD_PDF/a.pdf''
   \<and> copy_error \<lparr>status = 200, final_url = stored_url, body = ''new bytes'', copy_error = Some 3\<rparr>
       = Some 3
   \<and> log (downloadPDF (env_answering 200 (Some 3)) stored_url ''./NYPD_PDF/'' empty_world)
       = [Copy_failed ''NYPD_PDF/a.pdf'']
   \<and> os_Stat (fs (downloadPDF (env_answering 200 (Some 3)) stored_url ''./NYPD_PDF/'' empty_world))
        ''NYPD_PDF/a.pdf'' = Some (File ''new'')
   \<and> fileExists (downloadPDF (env_answering 200 (Some 3)) stored_url ''./NYPD_PDF/'' empty_world)
        ''NYPD_PDF/a.pdf''
   \<and> downloadPDF (env_answering 200 None) stored_url ''./NYPD_PDF/''
        (downloadPDF (env_answering 200 (Some 3)) stored_url ''./NYPD_PDF/'' empty_world)
       = logf (downloadPDF (env_answering 200 (Some 3)) stored_url ''./NYPD_PDF/'' empty_world)
           (Exists_skipping ''NYPD_PDF/a.pdf'')"
proof -
  let ?e = "env_answering 200 (Some 3)"
  let ?r = "\<lparr>status = 200, final_url = stored_url, body = ''new bytes'', copy_error = Some 3\<rparr>"
  let ?f1 = "[''NYPD_PDF'' \<mapsto> Dir]"
  let ?f3 = "?f1(''NYPD_PDF/a.pdf'' \<mapsto> File [])"
  have m: "os_MkdirAll ?e (fs empty_world) ''./NYPD_PDF/'' = (?f1, True)"
    by (simp add: os_MkdirAll_def os_Stat_def is_file_def empty_world_def env_answering_def
        stored_url_facts)
  have n: "\<not> fileExists (empty_world\<lparr>fs := ?f1\<rparr>) ''NYPD_PDF/a.pdf''"
    by (simp add: fileExists_def os_Stat_def stored_url_facts)
  have x: "\<not> fileExists empty_world ''NYPD_PDF/a.pdf''"
    by (simp add: fileExists_def os_Stat_def empty_world_def)
  have g: "http_Get ?e (length (requests empty_world)) stored_url = GetResponse ?r"
    by (simp add: env_answering_def)
  have c: "os_Create ?e ?f1 ''NYPD_PDF/a.pdf'' = Some ?f3"
    by (simp add: os_Create_def os_Stat_def env_answering_def stored_url_facts)
  from partial_file_remains[OF stored_url_facts(10) m n g _ c, of 3 "env_answering 200 None"]
  show ?thesis
    using x by (simp add: stored_url_facts empty_world_def)
qed

subsection \<open>An input file that cannot be read\<close>

text \<open>
  Claim C10. \<^verbatim>\<open>readFileLines\<close> returns no lines when the file cannot be opened
  and when the scan ends in an error, whatever lines were read before; in both
  cases the run prints the error, the loop has nothing to process, and the
  program ends with the counter at zero and the world otherwise untouched.
\<close>

theorem unreadable_input_runs_nothing:
  "(os_Open e filename = OpenError \<longrightarrow>
      readFileLines e filename w = ([], println w Error_opening_file))
   \<and> (os_Open e filename = Opened tokens True \<longrightarrow>
      readFileLines e filename w = ([], println w Error_reading_file))
   \<and> (os_Open e ''extracted_urls.txt'' = OpenError \<longrightarrow>
      main e w = (println w Error_opening_file, 0))
   \<and> (os_Open e ''extracted_urls.txt'' = Opened tokens True \<longrightarrow>
      main e w = (println w Error_reading_file, 0))"
  by (simp add: readFileLines_def main_def Let_def)

theorem unreadable_input_runs_nothing_witness:
  "os_Open (env_answering 200 None) ''extracted_urls.txt'' = OpenError
   \<and> main (env_answering 200 None) empty_world = (println empty_world Error_opening_file, 0)
   \<and> os_Open env_scan_error ''extracted_urls.txt'' = Opened [stored_url, bare_url] True
   \<and> readFileLines env_scan_error ''extracted_urls.txt'' empty_world
       = ([], println empty_world Error_reading_file)
   \<and> main env_scan_error empty_world = (println empty_world Error_reading_file, 0)"
proof -
  have 1: "os_Open (env_answering 200 None) ''extracted_urls.txt'' = OpenError"
    by (simp add: env_answering_def)
  have 2: "os_Open env_scan_error ''extracted_urls.txt'' = Opened [stored_url, bare_url] True"
    by (simp add: env_scan_error_def)
  from unreadable_input_runs_nothing[of "env_answering 200 None" "''extracted_urls.txt''"
      empty_world "[]"] 1
  have 3: "main (env_answering 200 None) empty_world = (println empty_world Error_opening_file, 0)"
    by blast
  from unreadable_input_runs_nothing[of env_scan_error "''extracted_urls.txt''" empty_world
      "[stored_url, bare_url]"] 2
  have 4: "readFileLines env_scan_error ''extracted_urls.txt'' empty_world
       = ([], println empty_world Error_reading_file)"
    "main env_scan_error empty_world = (println empty_world Error_reading_file, 0)"
    by blast+
  from 1 2 3 4 show ?thesis by blast
qed


end
